theory Spec2Isabelle
  imports Main "HOL-Library.Word" "HOL-Library.AList"
begin

unbundle bit_operations_syntax

section \<open>The watch factory of go-controller/pkg/factory/factory.go\<close>

text \<open>
  A shallow embedding of the watch factory as a sequential program. Handlers are Go
  pointers shared between a registry and its callers, so they live in an explicit heap; a
  \<open>*Handler\<close> is an index into it, and so is a channel into the list of channels. Every
  function of the source becomes a function on the program state that returns, panics or
  blocks. A call is one step, which no other step interrupts: for the sections that an
  informer's \<open>sync.RWMutex\<close> guards this is what the lock gives; what another goroutine
  may do in the middle of any other call is not represented. Subscriber code (the
  \<open>cache.ResourceEventHandler\<close> passed to a registration, and \<open>processExisting\<close>) lies outside
  the repository: the model records each invocation, with its arguments, in \<open>calls\<close>.
  \<open>processExisting\<close> is the one function of a subscriber that the factory calls in the
  middle of a registration, and it is free to look at the factory: its invocation is
  recorded together with the registry that it finds at that moment. Lines written
  through logrus are recorded in \<open>logs\<close>.
\<close>

subsection \<open>Objects, runtime types and metadata (lines 321-328 and 369-397)\<close>

text \<open>The fields of \<open>metav1.ObjectMeta\<close> that the factory reads.\<close>

record ObjectMeta =
  Name :: string
  Namespace :: string
  Labels :: "(string \<times> string) list"

text \<open>The six resource structs the factory knows (\<open>kapi.Pod\<close>, ..., \<open>knet.NetworkPolicy\<close>).\<close>

datatype resource =
  kapi_Pod | kapi_Service | kapi_Endpoints | knet_NetworkPolicy | kapi_Namespace | kapi_Node

text \<open>
  \<open>reflect.Type\<close>: a pointer to one of the resource structs, the struct
  \<open>cache.DeletedFinalStateUnknown\<close>, the type of the nil interface, or any other type.
\<close>

datatype rtype =
  PtrTo resource | DeletedFinalStateUnknownType | NilType | OtherType string

abbreviation podType :: rtype where "podType \<equiv> PtrTo kapi_Pod"
abbreviation serviceType :: rtype where "serviceType \<equiv> PtrTo kapi_Service"
abbreviation endpointsType :: rtype where "endpointsType \<equiv> PtrTo kapi_Endpoints"
abbreviation policyType :: rtype where "policyType \<equiv> PtrTo knet_NetworkPolicy"
abbreviation namespaceType :: rtype where "namespaceType \<equiv> PtrTo kapi_Namespace"
abbreviation nodeType :: rtype where "nodeType \<equiv> PtrTo kapi_Node"

text \<open>
  An \<open>interface{}\<close> value: nil, a non-nil pointer to a resource struct (its metadata, and a
  number standing for all the fields the factory never reads), the informer's
  "final state unknown" placeholder with its key and last known object, or a value of some
  other type.
\<close>

datatype obj =
  nil
  | Ptr resource ObjectMeta nat
  | DeletedFinalStateUnknown string obj
  | OtherValue string

fun TypeOf :: "obj \<Rightarrow> rtype" where
  "TypeOf nil = NilType"
| "TypeOf (Ptr r m b) = PtrTo r"
| "TypeOf (DeletedFinalStateUnknown k ob) = DeletedFinalStateUnknownType"
| "TypeOf (OtherValue s) = OtherType s"

datatype error =
  AlreadyDead "64 word"
  | CouldntGetObjectFromTombstone obj
  | UnexpectedTombstoneObjectType rtype rtype
  | CannotGetObjectMeta rtype
  | UnknownObjectType rtype
  | LabelSelectorError string
  | RemoveUnknownObjectType rtype
  | CacheSyncError rtype

datatype logline =
  Errorf_TypeMismatch rtype rtype
  | Debugf_SendingForRemoval rtype "64 word"
  | Debugf_Removed rtype "64 word"
  | Warningf_RemoveUnknown rtype "64 word"
  | Errorf_NoMeta error
  | Errorf_Err error
  | Errorf_FilterError error
  | Debugf_Added rtype "64 word"

text \<open>
  The type assertion \<open>obj.(*T)\<close> for a resource struct \<open>T\<close>, and \<open>getObjectMeta\<close> with its
  switch over the six types.
\<close>

fun assertPtr :: "resource \<Rightarrow> obj \<Rightarrow> ObjectMeta option" where
  "assertPtr r (Ptr r' m b) = (if r' = r then Some m else None)"
| "assertPtr r ob = None"

definition getObjectMeta :: "rtype \<Rightarrow> obj \<Rightarrow> error + ObjectMeta" where
  "getObjectMeta objType ob =
     (let fail = Inl (CannotGetObjectMeta objType) in
      if objType = podType then
        (case assertPtr kapi_Pod ob of Some m \<Rightarrow> Inr m | None \<Rightarrow> fail)
      else if objType = serviceType then
        (case assertPtr kapi_Service ob of Some m \<Rightarrow> Inr m | None \<Rightarrow> fail)
      else if objType = endpointsType then
        (case assertPtr kapi_Endpoints ob of Some m \<Rightarrow> Inr m | None \<Rightarrow> fail)
      else if objType = policyType then
        (case assertPtr knet_NetworkPolicy ob of Some m \<Rightarrow> Inr m | None \<Rightarrow> fail)
      else if objType = namespaceType then
        (case assertPtr kapi_Namespace ob of Some m \<Rightarrow> Inr m | None \<Rightarrow> fail)
      else if objType = nodeType then
        (case assertPtr kapi_Node ob of Some m \<Rightarrow> Inr m | None \<Rightarrow> fail)
      else fail)"

text \<open>\<open>ensureObjectOnDelete\<close> (lines 204-218).\<close>

definition ensureObjectOnDelete :: "obj \<Rightarrow> rtype \<Rightarrow> error + obj" where
  "ensureObjectOnDelete ob expectedType =
     (if expectedType = TypeOf ob then Inr ob
      else case ob of
        DeletedFinalStateUnknown key inner \<Rightarrow>
          (if expectedType \<noteq> TypeOf inner
           then Inl (UnexpectedTombstoneObjectType expectedType (TypeOf inner))
           else Inr inner)
      | _ \<Rightarrow> Inl (CouldntGetObjectFromTombstone ob))"

subsection \<open>Program state (lines 22-33, 60-80 and 304-319)\<close>

datatype eventKind = addEvent | updateEvent | deleteEvent

record event =
  event_obj :: obj
  event_oldObj :: obj
  event_kind :: eventKind

text \<open>A buffered Go channel of events: its buffer, its capacity, and whether it is closed.\<close>

record chan =
  chan_buf :: "event list"
  chan_cap :: nat
  chan_closed :: bool

text \<open>
  \<open>cache.FilteringResourceEventHandler\<close> of client-go: a filter and the subscriber's
  callbacks. The subscriber's callbacks are opaque and named by a number. The filter
  returns its verdict and the lines it logs.
\<close>

type_synonym ResourceEventHandler = nat

record FilteringResourceEventHandler =
  FilterFunc :: "obj \<Rightarrow> bool \<times> logline list"
  Handler :: ResourceEventHandler

definition handlerAlive :: "32 word" where "handlerAlive = 0"
definition handlerDead :: "32 word" where "handlerDead = 1"
definition numEventQueues :: nat where "numEventQueues = 10"

record Handler =
  base :: FilteringResourceEventHandler
  handler_id :: "64 word"
  tombstone :: "32 word"

type_synonym href = nat

datatype federated = FederatedHandler | FederatedQueuedHandler

text \<open>
  \<open>cache.SharedIndexInformer\<close>, reduced to what the factory uses: the objects its store
  lists, and the event handlers added to it.
\<close>

record SharedIndexInformer =
  store :: "obj list"
  eventHandlers :: "federated list"

text \<open>
  \<open>handlers\<close> is the Go map from id to \<open>*Handler\<close>, kept as an association list with
  unique keys; Go ranges over a map in an unspecified order, the model in list order.
  A slot of \<open>events\<close> is a reference to a channel, or \<open>None\<close> for a nil channel.
\<close>

record informer =
  oType :: rtype
  informer_inf :: SharedIndexInformer
  handlers :: "(64 word \<times> href) list"
  events :: "nat option list"

text \<open>
  The invocations of subscriber code. A \<open>processExisting\<close> function is named by a number;
  with the items it is given, the record holds the \<open>handlers\<close> map of the informer of the
  registration as it is when the function is called.
\<close>

datatype call =
  Call_OnAdd ResourceEventHandler obj
  | Call_OnUpdate ResourceEventHandler obj obj
  | Call_OnDelete ResourceEventHandler obj
  | Call_processExisting nat "obj list" "(64 word \<times> href) list"

text \<open>
  The goroutines the factory starts: the deferred deletion of \<open>removeHandler\<close>, the
  worker \<open>processEvents\<close> of one channel, and the one that waits for the stop channel to
  shut every informer down.
\<close>

datatype goroutine =
  RemoveHandler_go rtype href
  | ProcessEvents_go rtype nat
  | Shutdown_go

text \<open>
  The \<open>WatchFactory\<close> (\<open>handlerCounter\<close>, \<open>informers\<close>) together with the heap of handlers,
  the channels, the goroutines not yet finished, the stop channel, and the record of
  subscriber invocations and log lines.
\<close>

record state =
  handlerCounter :: "64 word"
  informers :: "(rtype \<times> informer) list"
  heap :: "Handler list"
  chans :: "chan list"
  goroutines :: "goroutine list"
  stopChan_closed :: bool
  calls :: "call list"
  logs :: "logline list"

datatype panic =
  NilPointerDereference | IndexOutOfRange | CloseOfNilChannel | CloseOfClosedChannel
  | SendOnClosedChannel

text \<open>
  What a call does: it returns a value, it panics, or it blocks (a send on a full channel,
  a receive on an empty one).
\<close>

datatype 'a outcome = Returns 'a | Panics panic | Blocks

fun andThen :: "'a outcome \<Rightarrow> ('a \<Rightarrow> 'b outcome) \<Rightarrow> 'b outcome" where
  "andThen (Returns a) f = f a"
| "andThen (Panics p) f = Panics p"
| "andThen Blocks f = Blocks"

fun forEach :: "'a list \<Rightarrow> ('a \<Rightarrow> state \<Rightarrow> state outcome) \<Rightarrow> state \<Rightarrow> state outcome" where
  "forEach [] f w = Returns w"
| "forEach (x # xs) f w = andThen (f x w) (forEach xs f)"

definition deref :: "href \<Rightarrow> state \<Rightarrow> Handler outcome" where
  "deref h w = (if h < length (heap w) then Returns (heap w ! h) else Panics NilPointerDereference)"

definition getInformer :: "rtype \<Rightarrow> state \<Rightarrow> informer outcome" where
  "getInformer t w =
     (case map_of (informers w) t of Some i \<Rightarrow> Returns i | None \<Rightarrow> Panics NilPointerDereference)"

definition putInformer :: "rtype \<Rightarrow> informer \<Rightarrow> state \<Rightarrow> state" where
  "putInformer t i w = w\<lparr>informers := AList.update t i (informers w)\<rparr>"

definition logrus :: "logline \<Rightarrow> state \<Rightarrow> state" where
  "logrus l w = w\<lparr>logs := logs w @ [l]\<rparr>"

definition invoke :: "call \<Rightarrow> state \<Rightarrow> state" where
  "invoke c w = w\<lparr>calls := calls w @ [c]\<rparr>"

subsection \<open>Handler (lines 35-58)\<close>

text \<open>The three methods of client-go's \<open>FilteringResourceEventHandler\<close>.\<close>

definition Filtering_OnAdd :: "FilteringResourceEventHandler \<Rightarrow> obj \<Rightarrow> state \<Rightarrow> state" where
  "Filtering_OnAdd r ob w =
     (let (ok, ls) = FilterFunc r ob; w1 = w\<lparr>logs := logs w @ ls\<rparr> in
      if \<not> ok then w1 else invoke (Call_OnAdd (Handler r) ob) w1)"

definition Filtering_OnUpdate ::
  "FilteringResourceEventHandler \<Rightarrow> obj \<Rightarrow> obj \<Rightarrow> state \<Rightarrow> state" where
  "Filtering_OnUpdate r oldOb newOb w =
     (let (newer, ls1) = FilterFunc r newOb;
          (older, ls2) = FilterFunc r oldOb;
          w1 = w\<lparr>logs := logs w @ ls1 @ ls2\<rparr> in
      if newer \<and> older then invoke (Call_OnUpdate (Handler r) oldOb newOb) w1
      else if newer \<and> \<not> older then invoke (Call_OnAdd (Handler r) newOb) w1
      else if \<not> newer \<and> older then invoke (Call_OnDelete (Handler r) oldOb) w1
      else w1)"

definition Filtering_OnDelete :: "FilteringResourceEventHandler \<Rightarrow> obj \<Rightarrow> state \<Rightarrow> state" where
  "Filtering_OnDelete r ob w =
     (let (ok, ls) = FilterFunc r ob; w1 = w\<lparr>logs := logs w @ ls\<rparr> in
      if \<not> ok then w1 else invoke (Call_OnDelete (Handler r) ob) w1)"

definition Handler_OnAdd :: "href \<Rightarrow> obj \<Rightarrow> state \<Rightarrow> state outcome" where
  "Handler_OnAdd h ob w =
     andThen (deref h w) (\<lambda>hdl.
       if tombstone hdl = handlerAlive then Returns (Filtering_OnAdd (base hdl) ob w)
       else Returns w)"

definition Handler_OnUpdate :: "href \<Rightarrow> obj \<Rightarrow> obj \<Rightarrow> state \<Rightarrow> state outcome" where
  "Handler_OnUpdate h oldOb newOb w =
     andThen (deref h w) (\<lambda>hdl.
       if tombstone hdl = handlerAlive then Returns (Filtering_OnUpdate (base hdl) oldOb newOb w)
       else Returns w)"

definition Handler_OnDelete :: "href \<Rightarrow> obj \<Rightarrow> state \<Rightarrow> state outcome" where
  "Handler_OnDelete h ob w =
     andThen (deref h w) (\<lambda>hdl.
       if tombstone hdl = handlerAlive then Returns (Filtering_OnDelete (base hdl) ob w)
       else Returns w)"

text \<open>\<open>kill\<close>: the compare-and-swap of the tombstone from alive to dead.\<close>

definition kill :: "href \<Rightarrow> state \<Rightarrow> (error option \<times> state) outcome" where
  "kill h w =
     andThen (deref h w) (\<lambda>hdl.
       if tombstone hdl \<noteq> handlerAlive then Returns (Some (AlreadyDead (handler_id hdl)), w)
       else Returns (None, w\<lparr>heap := (heap w)[h := hdl\<lparr>tombstone := handlerDead\<rparr>]\<rparr>))"

subsection \<open>informer (lines 82-173)\<close>

definition forEachQueuedHandler ::
  "rtype \<Rightarrow> (href \<Rightarrow> state \<Rightarrow> state outcome) \<Rightarrow> state \<Rightarrow> state outcome" where
  "forEachQueuedHandler t f w =
     andThen (getInformer t w) (\<lambda>i.
       let curHandlers = map snd (handlers i) in forEach curHandlers f w)"

definition forEachHandler ::
  "rtype \<Rightarrow> obj \<Rightarrow> (href \<Rightarrow> state \<Rightarrow> state outcome) \<Rightarrow> state \<Rightarrow> state outcome" where
  "forEachHandler t ob f w =
     andThen (getInformer t w) (\<lambda>i.
       let objType = TypeOf ob in
       if objType \<noteq> oType i then Returns (logrus (Errorf_TypeMismatch objType (oType i)) w)
       else forEach (map snd (handlers i)) f w)"

definition informer_addHandler ::
  "rtype \<Rightarrow> 64 word \<Rightarrow> (obj \<Rightarrow> bool \<times> logline list) \<Rightarrow> ResourceEventHandler \<Rightarrow> state
     \<Rightarrow> (href \<times> state) outcome" where
  "informer_addHandler t ident filterFn funcs w =
     andThen (getInformer t w) (\<lambda>i.
       let handler = length (heap w);
           w1 = w\<lparr>heap := heap w @
                  [\<lparr>base = \<lparr>FilterFunc = filterFn, Handler = funcs\<rparr>,
                    handler_id = ident, tombstone = handlerAlive\<rparr>]\<rparr>
       in Returns (handler,
            putInformer t (i\<lparr>handlers := AList.update ident handler (handlers i)\<rparr>) w1))"

text \<open>The body of the goroutine that \<open>removeHandler\<close> starts.\<close>

definition removeHandler_go :: "rtype \<Rightarrow> href \<Rightarrow> state \<Rightarrow> state outcome" where
  "removeHandler_go t handler w =
     andThen (getInformer t w) (\<lambda>i.
     andThen (deref handler w) (\<lambda>hdl.
       case map_of (handlers i) (handler_id hdl) of
         Some _ \<Rightarrow>
           Returns (logrus (Debugf_Removed (oType i) (handler_id hdl))
             (putInformer t (i\<lparr>handlers := AList.delete (handler_id hdl) (handlers i)\<rparr>) w))
       | None \<Rightarrow> Returns (logrus (Warningf_RemoveUnknown (oType i) (handler_id hdl)) w)))"

definition informer_removeHandler ::
  "rtype \<Rightarrow> href \<Rightarrow> state \<Rightarrow> (error option \<times> state) outcome" where
  "informer_removeHandler t handler w =
     andThen (kill handler w) (\<lambda>(err, w1).
       case err of
         Some e \<Rightarrow> Returns (Some e, w1)
       | None \<Rightarrow>
           andThen (getInformer t w1) (\<lambda>i.
           andThen (deref handler w1) (\<lambda>hdl.
             let w2 = logrus (Debugf_SendingForRemoval (oType i) (handler_id hdl)) w1 in
             Returns (None, w2\<lparr>goroutines := goroutines w2 @ [RemoveHandler_go t handler]\<rparr>))))"

text \<open>
  One round of the loop of \<open>processEvents\<close> on channel \<open>c\<close>: the \<open>select\<close> takes the
  receive when the channel has an event or is closed, the stop case when the stop channel
  is closed (\<open>pickStop\<close> decides when both are ready), and blocks otherwise. The result says
  whether the loop goes on.
\<close>

definition processEvents ::
  "rtype \<Rightarrow> nat \<Rightarrow> bool \<Rightarrow> state \<Rightarrow> (bool \<times> state) outcome" where
  "processEvents t c pickStop w =
     (let recvReady = (c < length (chans w) \<and>
                        (chan_buf (chans w ! c) \<noteq> [] \<or> chan_closed (chans w ! c)));
          stopReady = stopChan_closed w in
      if recvReady \<and> \<not> (stopReady \<and> pickStop) then
        (case chan_buf (chans w ! c) of
           [] \<Rightarrow> Returns (False, w)
         | e # rest \<Rightarrow>
             let w1 = w\<lparr>chans := (chans w)[c := (chans w ! c)\<lparr>chan_buf := rest\<rparr>]\<rparr> in
             andThen
               (case event_kind e of
                  addEvent \<Rightarrow>
                    forEachQueuedHandler t (\<lambda>h. Handler_OnAdd h (event_obj e)) w1
                | updateEvent \<Rightarrow>
                    forEachQueuedHandler t
                      (\<lambda>h. Handler_OnUpdate h (event_oldObj e) (event_obj e)) w1
                | deleteEvent \<Rightarrow>
                    forEachQueuedHandler t (\<lambda>h. Handler_OnDelete h (event_obj e)) w1)
               (\<lambda>w2. Returns (True, w2)))
      else if stopReady then Returns (False, w)
      else Blocks)"

subsection \<open>The event queues (lines 175-277)\<close>

text \<open>The 32-bit FNV-1 hash of Go's \<open>hash/fnv\<close> (\<open>fnv.New32\<close>).\<close>

definition offset32 :: "32 word" where "offset32 = 2166136261"
definition prime32 :: "32 word" where "prime32 = 16777619"

definition New32 :: "32 word" where "New32 = offset32"

fun Write :: "32 word \<Rightarrow> string \<Rightarrow> 32 word" where
  "Write h [] = h"
| "Write h (c # cs) = Write ((h * prime32) XOR of_char c) cs"

definition Sum32 :: "32 word \<Rightarrow> 32 word" where "Sum32 h = h"

text \<open>The queue index that \<open>enqueueEvent\<close> computes from the metadata.\<close>

definition queueIdx :: "ObjectMeta \<Rightarrow> 32 word" where
  "queueIdx meta =
     (let h = New32;
          h = (if Namespace meta \<noteq> [] then Write (Write h (Namespace meta)) ''/'' else h);
          h = Write h (Name meta)
      in Sum32 h mod of_nat numEventQueues)"

text \<open>A send on a channel.\<close>

definition send :: "nat \<Rightarrow> event \<Rightarrow> state \<Rightarrow> state outcome" where
  "send c e w =
     (if \<not> c < length (chans w) then Blocks
      else if chan_closed (chans w ! c) then Panics SendOnClosedChannel
      else if chan_cap (chans w ! c) \<le> length (chan_buf (chans w ! c)) then Blocks
      else Returns (w\<lparr>chans := (chans w)[c := (chans w ! c)
                       \<lparr>chan_buf := chan_buf (chans w ! c) @ [e]\<rparr>]\<rparr>))"

definition enqueueEvent :: "rtype \<Rightarrow> obj \<Rightarrow> obj \<Rightarrow> eventKind \<Rightarrow> state \<Rightarrow> state outcome" where
  "enqueueEvent t oldOb ob knd w =
     andThen (getInformer t w) (\<lambda>i.
       case getObjectMeta (oType i) ob of
         Inl err \<Rightarrow> Returns (logrus (Errorf_NoMeta err) w)
       | Inr meta \<Rightarrow>
           let idx = unat (queueIdx meta) in
           if \<not> idx < length (events i) then Panics IndexOutOfRange
           else case events i ! idx of
                  None \<Rightarrow> Returns w
                | Some c \<Rightarrow>
                    send c \<lparr>event_obj = ob, event_oldObj = oldOb, event_kind = knd\<rparr> w)"

text \<open>The callbacks of \<open>newFederatedQueuedHandler\<close>.\<close>

definition Queued_AddFunc :: "rtype \<Rightarrow> obj \<Rightarrow> state \<Rightarrow> state outcome" where
  "Queued_AddFunc t ob w = enqueueEvent t nil ob addEvent w"

definition Queued_UpdateFunc :: "rtype \<Rightarrow> obj \<Rightarrow> obj \<Rightarrow> state \<Rightarrow> state outcome" where
  "Queued_UpdateFunc t oldOb newOb w = enqueueEvent t oldOb newOb updateEvent w"

definition Queued_DeleteFunc :: "rtype \<Rightarrow> obj \<Rightarrow> state \<Rightarrow> state outcome" where
  "Queued_DeleteFunc t ob w =
     andThen (getInformer t w) (\<lambda>i.
       case ensureObjectOnDelete ob (oType i) of
         Inl err \<Rightarrow> Returns (logrus (Errorf_Err err) w)
       | Inr realObj \<Rightarrow> enqueueEvent t nil realObj deleteEvent w)"

text \<open>The callbacks of \<open>newFederatedHandler\<close>.\<close>

definition Federated_AddFunc :: "rtype \<Rightarrow> obj \<Rightarrow> state \<Rightarrow> state outcome" where
  "Federated_AddFunc t ob w = forEachHandler t ob (\<lambda>h. Handler_OnAdd h ob) w"

definition Federated_UpdateFunc :: "rtype \<Rightarrow> obj \<Rightarrow> obj \<Rightarrow> state \<Rightarrow> state outcome" where
  "Federated_UpdateFunc t oldOb newOb w =
     forEachHandler t newOb (\<lambda>h. Handler_OnUpdate h oldOb newOb) w"

definition Federated_DeleteFunc :: "rtype \<Rightarrow> obj \<Rightarrow> state \<Rightarrow> state outcome" where
  "Federated_DeleteFunc t ob w =
     andThen (getInformer t w) (\<lambda>i.
       case ensureObjectOnDelete ob (oType i) of
         Inl err \<Rightarrow> Returns (logrus (Errorf_Err err) w)
       | Inr realObj \<Rightarrow> forEachHandler t realObj (\<lambda>h. Handler_OnDelete h realObj) w)"

text \<open>\<open>shutdown\<close>: the body of its second loop for one index, then the whole function.\<close>

definition closeEvents :: "rtype \<Rightarrow> nat \<Rightarrow> state \<Rightarrow> state outcome" where
  "closeEvents t idx w =
     andThen (getInformer t w) (\<lambda>i.
       case events i ! idx of
         None \<Rightarrow> Panics CloseOfNilChannel
       | Some c \<Rightarrow>
           if \<not> c < length (chans w) then Panics CloseOfNilChannel
           else if chan_closed (chans w ! c) then Panics CloseOfClosedChannel
           else Returns (putInformer t (i\<lparr>events := (events i)[idx := None]\<rparr>)
                  (w\<lparr>chans := (chans w)[c := (chans w ! c)\<lparr>chan_closed := True\<rparr>]\<rparr>)))"

definition shutdown :: "rtype \<Rightarrow> state \<Rightarrow> state outcome" where
  "shutdown t w =
     andThen (getInformer t w) (\<lambda>i.
     andThen (forEach (map snd (handlers i))
                (\<lambda>handler w'. andThen (informer_removeHandler t handler w')
                   (\<lambda>(_, w''). Returns w'')) w) (\<lambda>w1.
       forEach [0..<length (events i)] (closeEvents t) w1))"

subsection \<open>Construction (lines 279-367)\<close>

definition newBaseInformer :: "rtype \<Rightarrow> SharedIndexInformer \<Rightarrow> informer" where
  "newBaseInformer oT sharedInformer =
     \<lparr>oType = oT, informer_inf = sharedInformer, handlers = [], events = []\<rparr>"

definition AddEventHandler :: "federated \<Rightarrow> informer \<Rightarrow> informer" where
  "AddEventHandler f i =
     i\<lparr>informer_inf := (informer_inf i)
          \<lparr>eventHandlers := eventHandlers (informer_inf i) @ [f]\<rparr>\<rparr>"

definition newInformer :: "rtype \<Rightarrow> SharedIndexInformer \<Rightarrow> informer" where
  "newInformer oT sharedInformer =
     AddEventHandler FederatedHandler (newBaseInformer oT sharedInformer)"

text \<open>
  \<open>newQueuedInformer\<close> makes \<open>numEventQueues\<close> channels of capacity 1 and starts one worker
  for each.
\<close>

definition newQueuedInformer ::
  "rtype \<Rightarrow> SharedIndexInformer \<Rightarrow> state \<Rightarrow> informer \<times> state" where
  "newQueuedInformer oT sharedInformer w =
     (let i = newBaseInformer oT sharedInformer;
          n = length (chans w);
          refs = [n..<n + numEventQueues];
          i = i\<lparr>events := map Some refs\<rparr>;
          w1 = w\<lparr>chans := chans w @
                  replicate numEventQueues \<lparr>chan_buf = [], chan_cap = 1, chan_closed = False\<rparr>,
                goroutines := goroutines w @ map (ProcessEvents_go oT) refs\<rparr>
      in (AddEventHandler FederatedQueuedHandler i, w1))"

text \<open>
  \<open>NewWatchFactory\<close>. The client is represented by what it delivers: the objects each
  shared informer lists once its cache has synced, and the result of \<open>WaitForCacheSync\<close>.
\<close>

definition NewWatchFactory ::
  "(resource \<Rightarrow> obj list) \<Rightarrow> (rtype \<times> bool) list \<Rightarrow> error + state" where
  "NewWatchFactory c synced =
     (let sii = (\<lambda>r. \<lparr>store = c r, eventHandlers = []\<rparr>);
          wf = \<lparr>handlerCounter = 0, informers = [], heap = [], chans = [], goroutines = [],
                stopChan_closed = False, calls = [], logs = []\<rparr>;
          wf = putInformer podType (newInformer podType (sii kapi_Pod)) wf;
          wf = putInformer serviceType (newInformer serviceType (sii kapi_Service)) wf;
          wf = putInformer endpointsType (newInformer endpointsType (sii kapi_Endpoints)) wf;
          wf = putInformer policyType (newInformer policyType (sii knet_NetworkPolicy)) wf;
          wf = putInformer namespaceType (newInformer namespaceType (sii kapi_Namespace)) wf;
          (i, wf) = newQueuedInformer nodeType (sii kapi_Node) wf;
          wf = putInformer nodeType i wf
      in case find (\<lambda>(oT, ok). \<not> ok) synced of
           Some (oT, ok) \<Rightarrow> Inl (CacheSyncError oT)
         | None \<Rightarrow> Inr (wf\<lparr>goroutines := goroutines wf @ [Shutdown_go]\<rparr>))"

text \<open>The body of the goroutine that \<open>NewWatchFactory\<close> starts, once the stop channel is closed.\<close>

definition shutdown_go :: "state \<Rightarrow> state outcome" where
  "shutdown_go w =
     (if \<not> stopChan_closed w then Blocks
      else forEach (map fst (informers w)) shutdown w)"

subsection \<open>Registration and removal (lines 399-461)\<close>

text \<open>
  The closure \<open>filterFunc\<close> of \<open>addHandler\<close>, over the variables it captures: \<open>objType\<close>,
  \<open>namespace\<close>, the selector \<open>lsel\<close> as given (\<open>None\<close> for nil) and \<open>sel\<close>, the
  \<open>labels.Selector\<close> made from it, represented by its \<open>Matches\<close>.
\<close>

definition filterFunc ::
  "rtype \<Rightarrow> string \<Rightarrow> 'l option \<Rightarrow> ((string \<times> string) list \<Rightarrow> bool) \<Rightarrow> obj
     \<Rightarrow> bool \<times> logline list" where
  "filterFunc objType namespace lsel sel ob =
     (if namespace = [] \<and> lsel = None then (True, [])
      else case getObjectMeta objType ob of
             Inl err \<Rightarrow> (False, [Errorf_FilterError err])
           | Inr meta \<Rightarrow>
               if namespace \<noteq> [] \<and> Namespace meta \<noteq> namespace then (False, [])
               else if lsel \<noteq> None \<and> \<not> sel (Labels meta) then (False, [])
               else (True, []))"

text \<open>The loop of \<open>addHandler\<close> that collects the items for \<open>processExisting\<close>.\<close>

fun filterItems ::
  "(obj \<Rightarrow> bool \<times> logline list) \<Rightarrow> obj list \<Rightarrow> obj list \<Rightarrow> state \<Rightarrow> obj list \<times> state" where
  "filterItems filterFn [] items w = (items, w)"
| "filterItems filterFn (ob # rest) items w =
     (let (ok, ls) = filterFn ob; w1 = w\<lparr>logs := logs w @ ls\<rparr> in
      filterItems filterFn rest (if ok then items @ [ob] else items) w1)"

text \<open>The \<open>handlers\<close> map of the informer of a type, read from a state.\<close>

definition registryOf :: "rtype \<Rightarrow> state \<Rightarrow> (64 word \<times> href) list" where
  "registryOf t w = (case map_of (informers w) t of None \<Rightarrow> [] | Some i \<Rightarrow> handlers i)"

text \<open>
  The first part of \<open>addHandler\<close>: the existing items are handed to \<open>processExisting\<close>,
  which is called in the state that the loop before it has left.
\<close>

definition processExistingItems ::
  "rtype \<Rightarrow> (obj \<Rightarrow> bool \<times> logline list) \<Rightarrow> obj list \<Rightarrow> nat option \<Rightarrow> state \<Rightarrow> state" where
  "processExistingItems objType filterFn existingItems processExisting w =
     (case processExisting of
        None \<Rightarrow> w
      | Some pe \<Rightarrow>
          (let (items, w1) = filterItems filterFn existingItems [] w in
           invoke (Call_processExisting pe items (registryOf objType w1)) w1))"

text \<open>
  \<open>addHandler\<close> of the \<open>WatchFactory\<close>. \<open>metav1.LabelSelectorAsSelector\<close> belongs to a library
  outside the repository and is a parameter: it returns an error message or the
  selector's \<open>Matches\<close>.
\<close>

definition addHandler ::
  "('l option \<Rightarrow> string + ((string \<times> string) list \<Rightarrow> bool)) \<Rightarrow> rtype \<Rightarrow> string \<Rightarrow> 'l option
     \<Rightarrow> ResourceEventHandler \<Rightarrow> nat option \<Rightarrow> state \<Rightarrow> ((error + href) \<times> state) outcome" where
  "addHandler LabelSelectorAsSelector objType namespace lsel funcs processExisting w =
     (case map_of (informers w) objType of
        None \<Rightarrow> Returns (Inl (UnknownObjectType objType), w)
      | Some i \<Rightarrow>
          (case LabelSelectorAsSelector lsel of
             Inl err \<Rightarrow> Returns (Inl (LabelSelectorError err), w)
           | Inr sel \<Rightarrow>
               let filterFn = filterFunc objType namespace lsel sel;
                   existingItems = store (informer_inf i);
                   w1 = processExistingItems objType filterFn existingItems processExisting w;
                   handlerID = handlerCounter w1 + 1;
                   w2 = w1\<lparr>handlerCounter := handlerID\<rparr>
               in andThen (informer_addHandler objType handlerID filterFn funcs w2)
                    (\<lambda>(handler, w3).
                  andThen (deref handler w3) (\<lambda>hdl.
                    let w4 = logrus (Debugf_Added objType (handler_id hdl)) w3 in
                    andThen (forEach existingItems (Handler_OnAdd handler) w4) (\<lambda>w5.
                      Returns (Inr handler, w5))))))"

definition removeHandler :: "rtype \<Rightarrow> href \<Rightarrow> state \<Rightarrow> (error option \<times> state) outcome" where
  "removeHandler objType handler w =
     (case map_of (informers w) objType of
        Some i \<Rightarrow> informer_removeHandler objType handler w
      | None \<Rightarrow> Returns (Some (RemoveUnknownObjectType objType), w))"

subsection \<open>Runs of the whole program\<close>

text \<open>
  What can happen to a running factory: a subscriber registers or removes a handler, the
  shared informer of a type notifies its event handlers of an add, update or delete, its
  store changes, the stop channel is closed, or the scheduler runs one of the goroutines.
\<close>

datatype 'l op =
  Op_addHandler rtype string "'l option" ResourceEventHandler "nat option"
  | Op_removeHandler rtype href
  | Op_OnAdd rtype obj
  | Op_OnUpdate rtype obj obj
  | Op_OnDelete rtype obj
  | Op_store rtype "obj list"
  | Op_closeStopChan
  | Op_schedule nat bool

definition notify ::
  "rtype \<Rightarrow> (federated \<Rightarrow> state \<Rightarrow> state outcome) \<Rightarrow> state \<Rightarrow> state outcome" where
  "notify t f w =
     (case map_of (informers w) t of
        None \<Rightarrow> Returns w
      | Some i \<Rightarrow> forEach (eventHandlers (informer_inf i)) f w)"

definition finish :: "nat \<Rightarrow> state \<Rightarrow> state" where
  "finish k w = w\<lparr>goroutines := take k (goroutines w) @ drop (Suc k) (goroutines w)\<rparr>"

definition schedule :: "nat \<Rightarrow> bool \<Rightarrow> state \<Rightarrow> state outcome" where
  "schedule k pickStop w =
     (if \<not> k < length (goroutines w) then Blocks
      else case goroutines w ! k of
             RemoveHandler_go t handler \<Rightarrow>
               andThen (removeHandler_go t handler (finish k w)) Returns
           | ProcessEvents_go t c \<Rightarrow>
               andThen (processEvents t c pickStop w) (\<lambda>(continue, w1).
                 Returns (if continue then w1 else finish k w1))
           | Shutdown_go \<Rightarrow> shutdown_go (finish k w))"

definition step ::
  "('l option \<Rightarrow> string + ((string \<times> string) list \<Rightarrow> bool)) \<Rightarrow> 'l op \<Rightarrow> state \<Rightarrow> state outcome" where
  "step LabelSelectorAsSelector a w =
     (case a of
        Op_addHandler objType namespace lsel funcs processExisting \<Rightarrow>
          andThen (addHandler LabelSelectorAsSelector objType namespace lsel funcs processExisting w)
            (\<lambda>(_, w1). Returns w1)
      | Op_removeHandler objType handler \<Rightarrow>
          andThen (removeHandler objType handler w) (\<lambda>(_, w1). Returns w1)
      | Op_OnAdd t ob \<Rightarrow>
          notify t (\<lambda>f. case f of FederatedHandler \<Rightarrow> Federated_AddFunc t ob
                              | FederatedQueuedHandler \<Rightarrow> Queued_AddFunc t ob) w
      | Op_OnUpdate t oldOb newOb \<Rightarrow>
          notify t (\<lambda>f. case f of FederatedHandler \<Rightarrow> Federated_UpdateFunc t oldOb newOb
                              | FederatedQueuedHandler \<Rightarrow> Queued_UpdateFunc t oldOb newOb) w
      | Op_OnDelete t ob \<Rightarrow>
          notify t (\<lambda>f. case f of FederatedHandler \<Rightarrow> Federated_DeleteFunc t ob
                              | FederatedQueuedHandler \<Rightarrow> Queued_DeleteFunc t ob) w
      | Op_store t objs \<Rightarrow>
          (case map_of (informers w) t of
             None \<Rightarrow> Returns w
           | Some i \<Rightarrow> Returns (putInformer t (i\<lparr>informer_inf := (informer_inf i)\<lparr>store := objs\<rparr>\<rparr>) w))
      | Op_closeStopChan \<Rightarrow> Returns (w\<lparr>stopChan_closed := True\<rparr>)
      | Op_schedule k pickStop \<Rightarrow> schedule k pickStop w)"

fun run ::
  "('l option \<Rightarrow> string + ((string \<times> string) list \<Rightarrow> bool)) \<Rightarrow> 'l op list \<Rightarrow> state \<Rightarrow> state outcome" where
  "run LabelSelectorAsSelector [] w = Returns w"
| "run LabelSelectorAsSelector (a # as) w =
     andThen (step LabelSelectorAsSelector a w) (run LabelSelectorAsSelector as)"

section \<open>Notions used in the proofs, and a running example\<close>

text \<open>
  What every step of the program keeps: a handler stays where it is in the heap with its
  id and its callbacks, and once its tombstone is not alive it never is again; an informer
  stays under its type, with its \<open>oType\<close> and the number of its event slots, and a slot that
  is nil stays nil.
\<close>

definition heap_evolves :: "Handler list \<Rightarrow> Handler list \<Rightarrow> bool" where
  "heap_evolves hs hs' =
     (length hs \<le> length hs' \<and>
      (\<forall>h < length hs.
         handler_id (hs' ! h) = handler_id (hs ! h) \<and> base (hs' ! h) = base (hs ! h) \<and>
         (tombstone (hs ! h) \<noteq> handlerAlive \<longrightarrow> tombstone (hs' ! h) \<noteq> handlerAlive)))"

definition informer_evolves :: "informer \<Rightarrow> informer \<Rightarrow> bool" where
  "informer_evolves i i' =
     (oType i' = oType i \<and> length (events i') = length (events i) \<and>
      (\<forall>j < length (events i). events i ! j = None \<longrightarrow> events i' ! j = None))"

definition informers_evolve :: "(rtype \<times> informer) list \<Rightarrow> (rtype \<times> informer) list \<Rightarrow> bool" where
  "informers_evolve is is' =
     (\<forall>t i. map_of is t = Some i \<longrightarrow> (\<exists>i'. map_of is' t = Some i' \<and> informer_evolves i i'))"

definition evolves :: "state \<Rightarrow> state \<Rightarrow> bool" where
  "evolves w w' =
     (heap_evolves (heap w) (heap w') \<and> informers_evolve (informers w) (informers w'))"

text \<open>The same, when the counter of handler ids is left as it is.\<close>

definition steady :: "state \<Rightarrow> state \<Rightarrow> bool" where
  "steady w w' = (evolves w w' \<and> handlerCounter w' = handlerCounter w)"

text \<open>A handler of id \<open>n\<close> whose tombstone is not alive.\<close>

definition dead :: "href \<Rightarrow> 64 word \<Rightarrow> state \<Rightarrow> bool" where
  "dead h n w =
     (h < length (heap w) \<and> tombstone (heap w ! h) \<noteq> handlerAlive \<and> handler_id (heap w ! h) = n)"

text \<open>The state in which a registration that passes its two checks ends.\<close>

definition registered ::
  "rtype \<Rightarrow> (obj \<Rightarrow> bool \<times> logline list) \<Rightarrow> ResourceEventHandler \<Rightarrow> nat option \<Rightarrow> informer
     \<Rightarrow> state \<Rightarrow> state" where
  "registered objType filterFn funcs pe i w =
     (let w1 = processExistingItems objType filterFn (store (informer_inf i)) pe w;
          handlerID = handlerCounter w + 1;
          handler = length (heap w);
          w3 = putInformer objType (i\<lparr>handlers := AList.update handlerID handler (handlers i)\<rparr>)
                 (w1\<lparr>handlerCounter := handlerID,
                     heap := heap w @ [\<lparr>base = \<lparr>FilterFunc = filterFn, Handler = funcs\<rparr>,
                                        handler_id = handlerID, tombstone = handlerAlive\<rparr>]\<rparr>);
          w4 = logrus (Debugf_Added objType handlerID) w3
      in fold (Filtering_OnAdd \<lparr>FilterFunc = filterFn, Handler = funcs\<rparr>) (store (informer_inf i)) w4)"

text \<open>
  The example: a cluster with the pod \<open>web\<close> in namespace \<open>ns-a\<close>, the pod \<open>db\<close> in \<open>ns-b\<close> and
  the node \<open>node1\<close>; the factory made for it; a label selector library that accepts
  everything; the factory after a subscriber 7 has registered for the pods of \<open>ns-a\<close> with
  a \<open>processExisting\<close> 8, and then after that handler has been killed.
\<close>

definition example_pod_a :: obj where
  "example_pod_a =
     Ptr kapi_Pod \<lparr>Name = ''web'', Namespace = ''ns-a'', Labels = [(''app'', ''web'')]\<rparr> 1"

definition example_pod_b :: obj where
  "example_pod_b = Ptr kapi_Pod \<lparr>Name = ''db'', Namespace = ''ns-b'', Labels = []\<rparr> 2"

definition example_node :: obj where
  "example_node = Ptr kapi_Node \<lparr>Name = ''node1'', Namespace = [], Labels = []\<rparr> 3"

definition example_client :: "resource \<Rightarrow> obj list" where
  "example_client r =
     (case r of
        kapi_Pod \<Rightarrow> [example_pod_a, example_pod_b]
      | kapi_Node \<Rightarrow> [example_node]
      | _ \<Rightarrow> [])"

definition example_factory :: state where
  "example_factory = projr (NewWatchFactory example_client [])"

definition example_selector :: "unit option \<Rightarrow> string + ((string \<times> string) list \<Rightarrow> bool)" where
  "example_selector lsel =
     (case lsel of None \<Rightarrow> Inr (\<lambda>ls. False) | Some u \<Rightarrow> Inr (\<lambda>ls. True))"

definition example_registered :: state where
  "example_registered =
     (case addHandler example_selector podType ''ns-a'' None 7 (Some 8) example_factory of
        Returns (r, w) \<Rightarrow> w
      | _ \<Rightarrow> example_factory)"

definition example_killed :: state where
  "example_killed =
     example_registered\<lparr>heap := (heap example_registered)
       [0 := (heap example_registered ! 0)\<lparr>tombstone := handlerDead\<rparr>]\<rparr>"

text \<open>The example after a second subscriber, 9, has registered for all pods.\<close>

definition example_unfiltered :: state where
  "example_unfiltered =
     (case addHandler example_selector podType [] None 9 None example_registered of
        Returns (r, w) \<Rightarrow> w
      | _ \<Rightarrow> example_registered)"

text \<open>The example after \<open>shutdown\<close> of the informer of nodes.\<close>

definition example_shutdown :: state where
  "example_shutdown =
     example_registered
       \<lparr>informers := AList.update nodeType
          \<lparr>oType = nodeType,
           informer_inf = \<lparr>store = [example_node], eventHandlers = [FederatedQueuedHandler]\<rparr>,
           handlers = [], events = replicate 10 None\<rparr> (informers example_registered),
        chans := replicate 10 \<lparr>chan_buf = [], chan_cap = 1, chan_closed = True\<rparr>\<rparr>"

text \<open>
  The example after the handler registered for pods has been removed through the informer
  of services.
\<close>

definition example_removed :: state where
  "example_removed =
     example_registered
       \<lparr>heap := (heap example_registered)
          [0 := (heap example_registered ! 0)\<lparr>tombstone := handlerDead\<rparr>],
        logs := logs example_registered @ [Debugf_SendingForRemoval serviceType 1],
        goroutines := goroutines example_registered @ [RemoveHandler_go serviceType 0]\<rparr>"

text \<open>The ids that the registrations of a run return, in their order.\<close>

fun returned_ids ::
  "('l option \<Rightarrow> string + ((string \<times> string) list \<Rightarrow> bool)) \<Rightarrow> 'l op list \<Rightarrow> state
     \<Rightarrow> 64 word list" where
  "returned_ids L [] w = []"
| "returned_ids L (Op_addHandler objType namespace lsel funcs pe # as) w =
     (case addHandler L objType namespace lsel funcs pe w of
        Returns (Inr handler, w1) \<Rightarrow> handler_id (heap w1 ! handler) # returned_ids L as w1
      | Returns (Inl err, w1) \<Rightarrow> returned_ids L as w1
      | _ \<Rightarrow> [])"
| "returned_ids L (a # as) w =
     (case step L a w of Returns w1 \<Rightarrow> returned_ids L as w1 | _ \<Rightarrow> [])"

section \<open>Lemmas\<close>

lemma andThen_eq_Returns:
  "(andThen m f = Returns b) = (\<exists>a. m = Returns a \<and> f a = Returns b)"
  by (cases m) auto

lemma heap_evolves_refl [simp]: "heap_evolves hs hs"
  by (simp add: heap_evolves_def)

lemma heap_evolves_trans:
  "heap_evolves a b \<Longrightarrow> heap_evolves b c \<Longrightarrow> heap_evolves a c"
  by (auto simp: heap_evolves_def)

lemma informer_evolves_refl [simp]: "informer_evolves i i"
  by (simp add: informer_evolves_def)

lemma informer_evolves_trans:
  "informer_evolves a b \<Longrightarrow> informer_evolves b c \<Longrightarrow> informer_evolves a c"
  by (auto simp: informer_evolves_def)

lemma informers_evolve_refl [simp]: "informers_evolve is is"
  by (simp add: informers_evolve_def)

lemma informers_evolve_trans:
  assumes "informers_evolve a b" and "informers_evolve b c"
  shows "informers_evolve a c"
  unfolding informers_evolve_def
proof (intro allI impI)
  fix t i assume "map_of a t = Some i"
  with assms(1) obtain i' where 1: "map_of b t = Some i'" "informer_evolves i i'"
    by (auto simp: informers_evolve_def)
  with assms(2) obtain i'' where 2: "map_of c t = Some i''" "informer_evolves i' i''"
    by (auto simp: informers_evolve_def)
  from 1(2) 2(2) have "informer_evolves i i''" by (rule informer_evolves_trans)
  with 2(1) show "\<exists>i'. map_of c t = Some i' \<and> informer_evolves i i'" by blast
qed

lemma informers_evolve_update:
  assumes "map_of is t = Some i" and "informer_evolves i i'"
  shows "informers_evolve is (AList.update t i' is)"
  using assms by (auto simp: informers_evolve_def update_conv')

lemma evolves_refl [simp]: "evolves w w"
  by (simp add: evolves_def)

lemma evolves_trans: "evolves a b \<Longrightarrow> evolves b c \<Longrightarrow> evolves a c"
  by (auto simp: evolves_def intro: heap_evolves_trans informers_evolve_trans)

lemma steady_refl [simp]: "steady w w"
  by (simp add: steady_def)

lemma steady_trans: "steady a b \<Longrightarrow> steady b c \<Longrightarrow> steady a c"
  by (auto simp: steady_def intro: evolves_trans)

lemma steady_evolves: "steady w w' \<Longrightarrow> evolves w w'"
  by (simp add: steady_def)

lemma steady_frame [simp]:
  "steady w (w'\<lparr>logs := l\<rparr>) = steady w w'"
  "steady w (w'\<lparr>calls := c\<rparr>) = steady w w'"
  "steady w (w'\<lparr>chans := ch\<rparr>) = steady w w'"
  "steady w (w'\<lparr>goroutines := g\<rparr>) = steady w w'"
  "steady w (w'\<lparr>stopChan_closed := b\<rparr>) = steady w w'"
  "steady (w\<lparr>logs := l\<rparr>) w' = steady w w'"
  "steady (w\<lparr>calls := c\<rparr>) w' = steady w w'"
  "steady (w\<lparr>chans := ch\<rparr>) w' = steady w w'"
  "steady (w\<lparr>goroutines := g\<rparr>) w' = steady w w'"
  "steady (w\<lparr>stopChan_closed := b\<rparr>) w' = steady w w'"
  by (simp_all add: steady_def evolves_def)

lemma steady_logrus [simp]: "steady w (logrus l w') = steady w w'" "steady (logrus l w) w' = steady w w'"
  by (simp_all add: logrus_def)

lemma steady_invoke [simp]: "steady w (invoke c w') = steady w w'" "steady (invoke c w) w' = steady w w'"
  by (simp_all add: invoke_def)

lemma steady_finish [simp]: "steady w (finish k w') = steady w w'" "steady (finish k w) w' = steady w w'"
  by (simp_all add: finish_def)

lemma steady_putInformer:
  "map_of (informers w) t = Some i \<Longrightarrow> informer_evolves i i' \<Longrightarrow> steady w (putInformer t i' w)"
  by (simp add: steady_def evolves_def putInformer_def informers_evolve_update)

lemma getInformer_Returns:
  "(getInformer t w = Returns i) = (map_of (informers w) t = Some i)"
  by (simp add: getInformer_def split: option.splits)

lemma forEach_steady:
  assumes "\<And>x v v'. f x v = Returns v' \<Longrightarrow> steady v v'"
  shows "forEach xs f w = Returns w' \<Longrightarrow> steady w w'"
proof (induction xs arbitrary: w)
  case Nil
  then show ?case by simp
next
  case (Cons x xs)
  from Cons.prems obtain v where v: "f x w = Returns v" "forEach xs f v = Returns w'"
    by (auto simp: andThen_eq_Returns)
  from assms [OF v(1)] Cons.IH [OF v(2)] show ?case by (rule steady_trans)
qed

lemma steady_Filtering [simp]:
  "steady w (Filtering_OnAdd r ob w)"
  "steady w (Filtering_OnUpdate r oldOb newOb w)"
  "steady w (Filtering_OnDelete r ob w)"
  by (simp_all add: Filtering_OnAdd_def Filtering_OnUpdate_def Filtering_OnDelete_def Let_def
      split: prod.splits)

lemma steady_Handler_OnAdd: "Handler_OnAdd g ob w = Returns w' \<Longrightarrow> steady w w'"
  by (auto simp: Handler_OnAdd_def andThen_eq_Returns split: if_splits)

lemma steady_Handler_OnUpdate: "Handler_OnUpdate g oldOb newOb w = Returns w' \<Longrightarrow> steady w w'"
  by (auto simp: Handler_OnUpdate_def andThen_eq_Returns split: if_splits)

lemma steady_Handler_OnDelete: "Handler_OnDelete g ob w = Returns w' \<Longrightarrow> steady w w'"
  by (auto simp: Handler_OnDelete_def andThen_eq_Returns split: if_splits)

lemma steady_kill: "kill g w = Returns (e, w') \<Longrightarrow> steady w w'"
  by (auto simp: kill_def deref_def andThen_eq_Returns steady_def evolves_def heap_evolves_def
      nth_list_update handlerAlive_def handlerDead_def split: if_splits)

lemma steady_forEachQueuedHandler:
  assumes "\<And>x v v'. f x v = Returns v' \<Longrightarrow> steady v v'"
    and "forEachQueuedHandler t f w = Returns w'"
  shows "steady w w'"
proof -
  from assms(2) obtain i :: informer where "forEach (map snd (handlers i)) f w = Returns w'"
    by (auto simp: forEachQueuedHandler_def Let_def andThen_eq_Returns)
  with assms(1) show ?thesis by (rule forEach_steady)
qed

lemma steady_forEachHandler:
  assumes "\<And>x v v'. f x v = Returns v' \<Longrightarrow> steady v v'"
    and "forEachHandler t ob f w = Returns w'"
  shows "steady w w'"
proof -
  from assms(2) obtain i :: informer where i:
    "(if TypeOf ob \<noteq> oType i then Returns (logrus (Errorf_TypeMismatch (TypeOf ob) (oType i)) w)
      else forEach (map snd (handlers i)) f w) = Returns w'"
    by (auto simp: forEachHandler_def Let_def andThen_eq_Returns)
  show ?thesis
  proof (cases "TypeOf ob \<noteq> oType i")
    case True
    with i have "w' = logrus (Errorf_TypeMismatch (TypeOf ob) (oType i)) w" by simp
    then show ?thesis by simp
  next
    case False
    with i have "forEach (map snd (handlers i)) f w = Returns w'" by simp
    with assms(1) show ?thesis by (rule forEach_steady)
  qed
qed

lemma heap_evolves_append [simp]: "heap_evolves hs (hs @ xs)"
  by (simp add: heap_evolves_def nth_append)

lemma steady_informer_addHandler:
  assumes "informer_addHandler t ident filterFn funcs w = Returns (g, w')"
  shows "steady w w'"
proof -
  from assms obtain i :: informer where i: "map_of (informers w) t = Some i"
    and w': "w' = putInformer t (i\<lparr>handlers := AList.update ident (length (heap w)) (handlers i)\<rparr>)
      (w\<lparr>heap := heap w @
                  [\<lparr>base = \<lparr>FilterFunc = filterFn, Handler = funcs\<rparr>,
                    handler_id = ident, tombstone = handlerAlive\<rparr>]\<rparr>)"
    by (auto simp: informer_addHandler_def Let_def andThen_eq_Returns getInformer_Returns)
  have "informer_evolves i (i\<lparr>handlers := AList.update ident (length (heap w)) (handlers i)\<rparr>)"
    by (simp add: informer_evolves_def)
  with i show ?thesis unfolding w'
    by (simp add: steady_def evolves_def putInformer_def informers_evolve_update)
qed

lemma steady_removeHandler_go:
  assumes "removeHandler_go t g w = Returns w'"
  shows "steady w w'"
proof -
  from assms obtain i :: informer and hdl :: Handler where i: "map_of (informers w) t = Some i"
    and r: "(case map_of (handlers i) (handler_id hdl) of
         Some _ \<Rightarrow>
           Returns (logrus (Debugf_Removed (oType i) (handler_id hdl))
             (putInformer t (i\<lparr>handlers := AList.delete (handler_id hdl) (handlers i)\<rparr>) w))
       | None \<Rightarrow> Returns (logrus (Warningf_RemoveUnknown (oType i) (handler_id hdl)) w))
       = Returns w'"
    by (auto simp: removeHandler_go_def andThen_eq_Returns getInformer_Returns)
  have "informer_evolves i (i\<lparr>handlers := AList.delete (handler_id hdl) (handlers i)\<rparr>)"
    by (simp add: informer_evolves_def)
  with i have "steady w (putInformer t (i\<lparr>handlers := AList.delete (handler_id hdl) (handlers i)\<rparr>) w)"
    by (rule steady_putInformer)
  with r show ?thesis by (cases "map_of (handlers i) (handler_id hdl)") auto
qed

lemma steady_informer_removeHandler:
  assumes "informer_removeHandler t g w = Returns (e, w')"
  shows "steady w w'"
proof -
  from assms obtain err w1 where k: "kill g w = Returns (err, w1)"
    and r: "(case err of
               Some e \<Rightarrow> Returns (Some e, w1)
             | None \<Rightarrow>
                 andThen (getInformer t w1) (\<lambda>i.
                 andThen (deref g w1) (\<lambda>hdl.
                   let w2 = logrus (Debugf_SendingForRemoval (oType i) (handler_id hdl)) w1 in
                   Returns (None, w2\<lparr>goroutines := goroutines w2 @ [RemoveHandler_go t g]\<rparr>))))
            = Returns (e, w')"
    by (auto simp: informer_removeHandler_def andThen_eq_Returns)
  from k have d: "steady w w1" by (rule steady_kill)
  show ?thesis
  proof (cases err)
    case None
    with r d show ?thesis by (auto simp: andThen_eq_Returns Let_def)
  next
    case (Some a)
    with r d show ?thesis by simp
  qed
qed

lemma steady_deliver:
  assumes "(case event_kind e of
            addEvent \<Rightarrow> forEachQueuedHandler t (\<lambda>g. Handler_OnAdd g (event_obj e)) w
          | updateEvent \<Rightarrow>
              forEachQueuedHandler t (\<lambda>g. Handler_OnUpdate g (event_oldObj e) (event_obj e)) w
          | deleteEvent \<Rightarrow> forEachQueuedHandler t (\<lambda>g. Handler_OnDelete g (event_obj e)) w)
         = Returns w'"
  shows "steady w w'"
proof (cases "event_kind e")
  case addEvent
  with assms have "forEachQueuedHandler t (\<lambda>g. Handler_OnAdd g (event_obj e)) w = Returns w'"
    by simp
  with steady_Handler_OnAdd show ?thesis by (rule steady_forEachQueuedHandler)
next
  case updateEvent
  with assms have
    "forEachQueuedHandler t (\<lambda>g. Handler_OnUpdate g (event_oldObj e) (event_obj e)) w = Returns w'"
    by simp
  with steady_Handler_OnUpdate show ?thesis by (rule steady_forEachQueuedHandler)
next
  case deleteEvent
  with assms have "forEachQueuedHandler t (\<lambda>g. Handler_OnDelete g (event_obj e)) w = Returns w'"
    by simp
  with steady_Handler_OnDelete show ?thesis by (rule steady_forEachQueuedHandler)
qed

lemma steady_processEvents:
  assumes "processEvents t c pickStop w = Returns (b, w')"
  shows "steady w w'"
proof (cases "chan_buf (chans w ! c)")
  case Nil
  with assms show ?thesis
    by (auto simp: processEvents_def Let_def split: if_splits)
next
  case (Cons e rest)
  let ?w1 = "w\<lparr>chans := (chans w)[c := (chans w ! c)\<lparr>chan_buf := rest\<rparr>]\<rparr>"
  from assms Cons have "w' = w \<or>
    (case event_kind e of
            addEvent \<Rightarrow> forEachQueuedHandler t (\<lambda>g. Handler_OnAdd g (event_obj e)) ?w1
          | updateEvent \<Rightarrow>
              forEachQueuedHandler t (\<lambda>g. Handler_OnUpdate g (event_oldObj e) (event_obj e)) ?w1
          | deleteEvent \<Rightarrow> forEachQueuedHandler t (\<lambda>g. Handler_OnDelete g (event_obj e)) ?w1)
         = Returns w'"
    by (auto simp: processEvents_def Let_def andThen_eq_Returns split: if_splits)
  then show ?thesis
  proof
    assume "w' = w" then show ?thesis by simp
  next
    assume "(case event_kind e of
            addEvent \<Rightarrow> forEachQueuedHandler t (\<lambda>g. Handler_OnAdd g (event_obj e)) ?w1
          | updateEvent \<Rightarrow>
              forEachQueuedHandler t (\<lambda>g. Handler_OnUpdate g (event_oldObj e) (event_obj e)) ?w1
          | deleteEvent \<Rightarrow> forEachQueuedHandler t (\<lambda>g. Handler_OnDelete g (event_obj e)) ?w1)
         = Returns w'"
    then have "steady ?w1 w'" by (rule steady_deliver)
    then show ?thesis by simp
  qed
qed

lemma steady_send: "send c e w = Returns w' \<Longrightarrow> steady w w'"
  by (auto simp: send_def split: if_splits)

lemma steady_enqueueEvent:
  assumes "enqueueEvent t oldOb ob knd w = Returns w'"
  shows "steady w w'"
proof -
  from assms obtain i :: informer where
    r: "(case getObjectMeta (oType i) ob of
         Inl err \<Rightarrow> Returns (logrus (Errorf_NoMeta err) w)
       | Inr meta \<Rightarrow>
           let idx = unat (queueIdx meta) in
           if \<not> idx < length (events i) then Panics IndexOutOfRange
           else case events i ! idx of
                  None \<Rightarrow> Returns w
                | Some c \<Rightarrow>
                    send c \<lparr>event_obj = ob, event_oldObj = oldOb, event_kind = knd\<rparr> w)
        = Returns w'"
    by (auto simp: enqueueEvent_def andThen_eq_Returns)
  show ?thesis
  proof (cases "getObjectMeta (oType i) ob")
    case (Inl err)
    with r show ?thesis by auto
  next
    case (Inr meta)
    show ?thesis
    proof (cases "events i ! unat (queueIdx meta)")
      case None
      with r Inr show ?thesis by (auto simp: Let_def split: if_splits)
    next
      case (Some c)
      with r Inr have "send c \<lparr>event_obj = ob, event_oldObj = oldOb, event_kind = knd\<rparr> w
        = Returns w'"
        by (auto simp: Let_def split: if_splits)
      then show ?thesis by (rule steady_send)
    qed
  qed
qed

lemma steady_Queued_AddFunc: "Queued_AddFunc t ob w = Returns w' \<Longrightarrow> steady w w'"
  unfolding Queued_AddFunc_def by (rule steady_enqueueEvent)

lemma steady_Queued_UpdateFunc: "Queued_UpdateFunc t oldOb newOb w = Returns w' \<Longrightarrow> steady w w'"
  unfolding Queued_UpdateFunc_def by (rule steady_enqueueEvent)

lemma steady_Queued_DeleteFunc:
  assumes "Queued_DeleteFunc t ob w = Returns w'"
  shows "steady w w'"
proof -
  from assms obtain i :: informer where
    r: "(case ensureObjectOnDelete ob (oType i) of
         Inl err \<Rightarrow> Returns (logrus (Errorf_Err err) w)
       | Inr realObj \<Rightarrow> enqueueEvent t nil realObj deleteEvent w) = Returns w'"
    by (auto simp: Queued_DeleteFunc_def andThen_eq_Returns)
  show ?thesis
  proof (cases "ensureObjectOnDelete ob (oType i)")
    case (Inl err)
    with r show ?thesis by auto
  next
    case (Inr realObj)
    with r have "enqueueEvent t nil realObj deleteEvent w = Returns w'" by simp
    then show ?thesis by (rule steady_enqueueEvent)
  qed
qed

lemma steady_Federated_AddFunc: "Federated_AddFunc t ob w = Returns w' \<Longrightarrow> steady w w'"
  unfolding Federated_AddFunc_def using steady_Handler_OnAdd by (rule steady_forEachHandler)

lemma steady_Federated_UpdateFunc:
  "Federated_UpdateFunc t oldOb newOb w = Returns w' \<Longrightarrow> steady w w'"
  unfolding Federated_UpdateFunc_def using steady_Handler_OnUpdate by (rule steady_forEachHandler)

lemma steady_Federated_DeleteFunc:
  assumes "Federated_DeleteFunc t ob w = Returns w'"
  shows "steady w w'"
proof -
  from assms obtain i :: informer where
    r: "(case ensureObjectOnDelete ob (oType i) of
         Inl err \<Rightarrow> Returns (logrus (Errorf_Err err) w)
       | Inr realObj \<Rightarrow> forEachHandler t realObj (\<lambda>h. Handler_OnDelete h realObj) w) = Returns w'"
    by (auto simp: Federated_DeleteFunc_def andThen_eq_Returns)
  show ?thesis
  proof (cases "ensureObjectOnDelete ob (oType i)")
    case (Inl err)
    with r show ?thesis by auto
  next
    case (Inr realObj)
    with r have "forEachHandler t realObj (\<lambda>h. Handler_OnDelete h realObj) w = Returns w'"
      by simp
    with steady_Handler_OnDelete show ?thesis by (rule steady_forEachHandler)
  qed
qed

lemma steady_closeEvents:
  assumes "closeEvents t idx w = Returns w'"
  shows "steady w w'"
proof -
  from assms obtain i :: informer and c where i: "map_of (informers w) t = Some i"
    and w': "w' = putInformer t (i\<lparr>events := (events i)[idx := None]\<rparr>)
                  (w\<lparr>chans := (chans w)[c := (chans w ! c)\<lparr>chan_closed := True\<rparr>]\<rparr>)"
    by (auto simp: closeEvents_def andThen_eq_Returns getInformer_Returns
        split: option.splits if_splits)
  have "informer_evolves i (i\<lparr>events := (events i)[idx := None]\<rparr>)"
    by (cases "idx < length (events i)") (auto simp: informer_evolves_def nth_list_update)
  with i have "steady w (putInformer t (i\<lparr>events := (events i)[idx := None]\<rparr>) w)"
    by (rule steady_putInformer)
  then show ?thesis unfolding w'
    by (simp add: steady_def evolves_def putInformer_def)
qed

lemma steady_shutdown:
  assumes "shutdown t w = Returns w'"
  shows "steady w w'"
proof -
  let ?f = "\<lambda>handler w'. andThen (informer_removeHandler t handler w') (\<lambda>(_, w''). Returns w'')"
  from assms obtain i :: informer and w1 where
    1: "forEach (map snd (handlers i)) ?f w = Returns w1"
    and 2: "forEach [0..<length (events i)] (closeEvents t) w1 = Returns w'"
    by (auto simp: shutdown_def andThen_eq_Returns)
  have "steady v v'" if "?f x v = Returns v'" for x v v'
    using that by (auto simp: andThen_eq_Returns dest: steady_informer_removeHandler)
  from this 1 have "steady w w1" by (rule forEach_steady)
  moreover from steady_closeEvents 2 have "steady w1 w'" by (rule forEach_steady)
  ultimately show ?thesis by (rule steady_trans)
qed

lemma steady_shutdown_go: "shutdown_go w = Returns w' \<Longrightarrow> steady w w'"
  unfolding shutdown_go_def
  by (cases "stopChan_closed w") (auto intro: forEach_steady [OF steady_shutdown])

lemma filterItems_frame:
  "filterItems filterFn xs items w = (items', w') \<Longrightarrow>
     heap w' = heap w \<and> informers w' = informers w \<and> handlerCounter w' = handlerCounter w
     \<and> calls w' = calls w \<and> chans w' = chans w \<and> goroutines w' = goroutines w
     \<and> stopChan_closed w' = stopChan_closed w"
  by (induction xs arbitrary: items w) (auto simp: Let_def split: prod.splits)

lemma processExistingItems_frame [simp]:
  "heap (processExistingItems t filterFn xs pe w) = heap w"
  "informers (processExistingItems t filterFn xs pe w) = informers w"
  "handlerCounter (processExistingItems t filterFn xs pe w) = handlerCounter w"
  "chans (processExistingItems t filterFn xs pe w) = chans w"
  "goroutines (processExistingItems t filterFn xs pe w) = goroutines w"
  "stopChan_closed (processExistingItems t filterFn xs pe w) = stopChan_closed w"
  by (auto simp: processExistingItems_def invoke_def split: option.splits prod.splits
      dest: filterItems_frame)

lemma steady_processExistingItems [simp]:
  "steady w (processExistingItems t filterFn xs pe w)"
  by (simp add: steady_def evolves_def)

lemma Filtering_OnAdd_frame [simp]:
  "heap (Filtering_OnAdd r ob w) = heap w"
  "informers (Filtering_OnAdd r ob w) = informers w"
  "handlerCounter (Filtering_OnAdd r ob w) = handlerCounter w"
  "chans (Filtering_OnAdd r ob w) = chans w"
  "goroutines (Filtering_OnAdd r ob w) = goroutines w"
  "stopChan_closed (Filtering_OnAdd r ob w) = stopChan_closed w"
  by (simp_all add: Filtering_OnAdd_def invoke_def Let_def split: prod.splits)

lemma calls_Filtering_OnAdd:
  "calls (Filtering_OnAdd r ob w) =
     calls w @ (if fst (FilterFunc r ob) then [Call_OnAdd (Handler r) ob] else [])"
  by (simp add: Filtering_OnAdd_def invoke_def Let_def split: prod.splits)

lemma fold_Filtering_OnAdd_frame [simp]:
  "heap (fold (Filtering_OnAdd r) xs w) = heap w"
  "informers (fold (Filtering_OnAdd r) xs w) = informers w"
  "handlerCounter (fold (Filtering_OnAdd r) xs w) = handlerCounter w"
  "chans (fold (Filtering_OnAdd r) xs w) = chans w"
  "goroutines (fold (Filtering_OnAdd r) xs w) = goroutines w"
  "stopChan_closed (fold (Filtering_OnAdd r) xs w) = stopChan_closed w"
  by (induction xs arbitrary: w) simp_all

lemma calls_fold_Filtering_OnAdd:
  "calls (fold (Filtering_OnAdd r) xs w) =
     calls w @ map (Call_OnAdd (Handler r)) (filter (\<lambda>ob. fst (FilterFunc r ob)) xs)"
  by (induction xs arbitrary: w) (simp_all add: calls_Filtering_OnAdd)

lemma forEach_Handler_OnAdd_alive:
  "g < length (heap w) \<Longrightarrow> tombstone (heap w ! g) = handlerAlive \<Longrightarrow>
   forEach xs (Handler_OnAdd g) w = Returns (fold (Filtering_OnAdd (base (heap w ! g))) xs w)"
  by (induction xs arbitrary: w) (simp_all add: Handler_OnAdd_def deref_def)

lemma filterItems_items:
  "fst (filterItems filterFn xs items w) = items @ filter (\<lambda>ob. fst (filterFn ob)) xs"
  by (induction xs arbitrary: items w) (simp_all add: Let_def split: prod.splits)

lemma calls_processExistingItems:
  "calls (processExistingItems t filterFn xs pe w) =
     calls w @ (case pe of None \<Rightarrow> []
                | Some p \<Rightarrow> [Call_processExisting p (filter (\<lambda>ob. fst (filterFn ob)) xs)
                              (registryOf t w)])"
proof (cases pe)
  case None
  then show ?thesis by (simp add: processExistingItems_def)
next
  case (Some p)
  obtain items w1 where f: "filterItems filterFn xs [] w = (items, w1)"
    by (cases "filterItems filterFn xs [] w")
  from f have "items = filter (\<lambda>ob. fst (filterFn ob)) xs"
    using filterItems_items [of filterFn xs "[]" w] by simp
  moreover from f have "calls w1 = calls w" by (simp add: filterItems_frame)
  moreover from f have "registryOf t w1 = registryOf t w"
    by (simp add: filterItems_frame registryOf_def)
  ultimately show ?thesis using Some f by (simp add: processExistingItems_def invoke_def)
qed

lemma addHandler_Inr:
  assumes "map_of (informers w) objType = Some i" and "L lsel = Inr sel"
  shows "addHandler L objType namespace lsel funcs pe w =
     Returns (Inr (length (heap w)),
       registered objType (filterFunc objType namespace lsel sel) funcs pe i w)"
  using assms
  by (simp add: addHandler_def registered_def Let_def informer_addHandler_def getInformer_def
      deref_def putInformer_def logrus_def forEach_Handler_OnAdd_alive)

lemma logrus_frame [simp]:
  "heap (logrus l w) = heap w"
  "informers (logrus l w) = informers w"
  "handlerCounter (logrus l w) = handlerCounter w"
  "chans (logrus l w) = chans w"
  "goroutines (logrus l w) = goroutines w"
  "stopChan_closed (logrus l w) = stopChan_closed w"
  "calls (logrus l w) = calls w"
  "logs (logrus l w) = logs w @ [l]"
  by (simp_all add: logrus_def)

lemma invoke_frame [simp]:
  "heap (invoke c w) = heap w"
  "informers (invoke c w) = informers w"
  "handlerCounter (invoke c w) = handlerCounter w"
  "chans (invoke c w) = chans w"
  "goroutines (invoke c w) = goroutines w"
  "stopChan_closed (invoke c w) = stopChan_closed w"
  "calls (invoke c w) = calls w @ [c]"
  "logs (invoke c w) = logs w"
  by (simp_all add: invoke_def)

lemma putInformer_frame [simp]:
  "heap (putInformer t i w) = heap w"
  "informers (putInformer t i w) = AList.update t i (informers w)"
  "handlerCounter (putInformer t i w) = handlerCounter w"
  "chans (putInformer t i w) = chans w"
  "goroutines (putInformer t i w) = goroutines w"
  "stopChan_closed (putInformer t i w) = stopChan_closed w"
  "calls (putInformer t i w) = calls w"
  "logs (putInformer t i w) = logs w"
  by (simp_all add: putInformer_def)

lemma registered_handlerCounter:
  "handlerCounter (registered objType filterFn funcs pe i w) = handlerCounter w + 1"
  by (simp add: registered_def Let_def)

lemma registered_heap:
  "heap (registered objType filterFn funcs pe i w) =
     heap w @ [\<lparr>base = \<lparr>FilterFunc = filterFn, Handler = funcs\<rparr>,
                handler_id = handlerCounter w + 1, tombstone = handlerAlive\<rparr>]"
  by (simp add: registered_def Let_def)

lemma registered_informers:
  "informers (registered objType filterFn funcs pe i w) =
     AList.update objType
       (i\<lparr>handlers := AList.update (handlerCounter w + 1) (length (heap w)) (handlers i)\<rparr>)
       (informers w)"
  by (simp add: registered_def Let_def)

lemma registered_rest:
  "chans (registered objType filterFn funcs pe i w) = chans w"
  "goroutines (registered objType filterFn funcs pe i w) = goroutines w"
  "stopChan_closed (registered objType filterFn funcs pe i w) = stopChan_closed w"
  by (simp_all add: registered_def Let_def)

lemmas registered_frame =
  registered_handlerCounter registered_heap registered_informers registered_rest

lemma calls_registered:
  "calls (registered objType filterFn funcs pe i w) =
     calls w
     @ (case pe of None \<Rightarrow> []
        | Some p \<Rightarrow> [Call_processExisting p
                      (filter (\<lambda>ob. fst (filterFn ob)) (store (informer_inf i)))
                      (registryOf objType w)])
     @ map (Call_OnAdd funcs) (filter (\<lambda>ob. fst (filterFn ob)) (store (informer_inf i)))"
  by (simp add: registered_def Let_def calls_fold_Filtering_OnAdd calls_processExistingItems)

lemma evolves_registered:
  assumes "map_of (informers w) objType = Some i"
  shows "evolves w (registered objType filterFn funcs pe i w)"
proof -
  have "informer_evolves i
    (i\<lparr>handlers := AList.update (handlerCounter w + 1) (length (heap w)) (handlers i)\<rparr>)"
    by (simp add: informer_evolves_def)
  with assms show ?thesis
    by (simp add: evolves_def registered_frame informers_evolve_update)
qed

lemma addHandler_cases:
  assumes "addHandler L objType namespace lsel funcs pe w = Returns (r, w')"
  obtains (unknown) "map_of (informers w) objType = None" "r = Inl (UnknownObjectType objType)"
        "w' = w"
  | (selector) err where "L lsel = Inl err" "r = Inl (LabelSelectorError err)" "w' = w"
  | (added) i sel where "map_of (informers w) objType = Some i" "L lsel = Inr sel"
        "r = Inr (length (heap w))"
        "w' = registered objType (filterFunc objType namespace lsel sel) funcs pe i w"
proof (cases "map_of (informers w) objType")
  case None
  with assms have "r = Inl (UnknownObjectType objType)" "w' = w" by (simp_all add: addHandler_def)
  with None show ?thesis by (rule unknown)
next
  case (Some i)
  show ?thesis
  proof (cases "L lsel")
    case (Inl err)
    with Some assms have "r = Inl (LabelSelectorError err)" "w' = w"
      by (simp_all add: addHandler_def)
    with Inl show ?thesis by (rule selector)
  next
    case (Inr sel)
    with Some assms have "r = Inr (length (heap w))"
      "w' = registered objType (filterFunc objType namespace lsel sel) funcs pe i w"
      by (simp_all add: addHandler_Inr)
    with Some Inr show ?thesis by (rule added)
  qed
qed

lemma evolves_addHandler:
  assumes "addHandler L objType namespace lsel funcs pe w = Returns (r, w')"
  shows "evolves w w'"
  using assms by (cases rule: addHandler_cases) (simp_all add: evolves_registered)

lemma steady_removeHandler: "removeHandler objType g w = Returns (e, w') \<Longrightarrow> steady w w'"
  by (auto simp: removeHandler_def split: option.splits dest: steady_informer_removeHandler)

lemma steady_schedule:
  assumes "schedule k pickStop w = Returns w'"
  shows "steady w w'"
proof (cases "k < length (goroutines w)")
  case False
  with assms show ?thesis by (simp add: schedule_def)
next
  case True
  show ?thesis
  proof (cases "goroutines w ! k")
    case (RemoveHandler_go t g)
    with True assms have "removeHandler_go t g (finish k w) = Returns w'"
      by (auto simp: schedule_def andThen_eq_Returns)
    then have "steady (finish k w) w'" by (rule steady_removeHandler_go)
    then show ?thesis by simp
  next
    case (ProcessEvents_go t c)
    with True assms obtain b w1 where p: "processEvents t c pickStop w = Returns (b, w1)"
      and e: "w' = (if b then w1 else finish k w1)"
      by (auto simp: schedule_def andThen_eq_Returns)
    from p have "steady w w1" by (rule steady_processEvents)
    with e show ?thesis by simp
  next
    case Shutdown_go
    with True assms have "shutdown_go (finish k w) = Returns w'"
      by (simp add: schedule_def)
    then have "steady (finish k w) w'" by (rule steady_shutdown_go)
    then show ?thesis by simp
  qed
qed

lemma steady_notify:
  assumes "\<And>x v v'. f x v = Returns v' \<Longrightarrow> steady v v'"
    and "notify t f w = Returns w'"
  shows "steady w w'"
proof (cases "map_of (informers w) t")
  case None
  with assms(2) show ?thesis by (simp add: notify_def)
next
  case (Some i)
  with assms(2) have "forEach (eventHandlers (informer_inf i)) f w = Returns w'"
    by (simp add: notify_def)
  with assms(1) show ?thesis by (rule forEach_steady)
qed

text \<open>Every step but a registration leaves the counter of handler ids alone.\<close>

lemma steady_step:
  assumes "step L a w = Returns w'"
    and "\<And>objType namespace lsel funcs pe. a \<noteq> Op_addHandler objType namespace lsel funcs pe"
  shows "steady w w'"
proof (cases a)
  case (Op_addHandler objType namespace lsel funcs pe)
  with assms(2) show ?thesis by blast
next
  case (Op_removeHandler objType g)
  with assms(1) obtain e where "removeHandler objType g w = Returns (e, w')"
    by (auto simp: step_def andThen_eq_Returns)
  then show ?thesis by (rule steady_removeHandler)
next
  case (Op_OnAdd t ob)
  have pres: "steady v v'"
    if "(case x of FederatedHandler \<Rightarrow> Federated_AddFunc t ob
                     | FederatedQueuedHandler \<Rightarrow> Queued_AddFunc t ob) v = Returns v'" for x v v'
    using that by (cases x) (auto dest: steady_Federated_AddFunc steady_Queued_AddFunc)
  from Op_OnAdd assms(1) have
    "notify t (\<lambda>f. case f of FederatedHandler \<Rightarrow> Federated_AddFunc t ob
                         | FederatedQueuedHandler \<Rightarrow> Queued_AddFunc t ob) w = Returns w'"
    by (simp add: step_def)
  with pres show ?thesis by (rule steady_notify)
next
  case (Op_OnUpdate t oldOb newOb)
  have pres: "steady v v'"
    if "(case x of FederatedHandler \<Rightarrow> Federated_UpdateFunc t oldOb newOb
                     | FederatedQueuedHandler \<Rightarrow> Queued_UpdateFunc t oldOb newOb) v = Returns v'"
    for x v v'
    using that by (cases x) (auto dest: steady_Federated_UpdateFunc steady_Queued_UpdateFunc)
  from Op_OnUpdate assms(1) have
    "notify t (\<lambda>f. case f of FederatedHandler \<Rightarrow> Federated_UpdateFunc t oldOb newOb
                         | FederatedQueuedHandler \<Rightarrow> Queued_UpdateFunc t oldOb newOb) w = Returns w'"
    by (simp add: step_def)
  with pres show ?thesis by (rule steady_notify)
next
  case (Op_OnDelete t ob)
  have pres: "steady v v'"
    if "(case x of FederatedHandler \<Rightarrow> Federated_DeleteFunc t ob
                     | FederatedQueuedHandler \<Rightarrow> Queued_DeleteFunc t ob) v = Returns v'" for x v v'
    using that by (cases x) (auto dest: steady_Federated_DeleteFunc steady_Queued_DeleteFunc)
  from Op_OnDelete assms(1) have
    "notify t (\<lambda>f. case f of FederatedHandler \<Rightarrow> Federated_DeleteFunc t ob
                         | FederatedQueuedHandler \<Rightarrow> Queued_DeleteFunc t ob) w = Returns w'"
    by (simp add: step_def)
  with pres show ?thesis by (rule steady_notify)
next
  case (Op_store t objs)
  show ?thesis
  proof (cases "map_of (informers w) t")
    case None
    with Op_store assms(1) show ?thesis by (simp add: step_def)
  next
    case (Some i)
    have "informer_evolves i (i\<lparr>informer_inf := (informer_inf i)\<lparr>store := objs\<rparr>\<rparr>)"
      by (simp add: informer_evolves_def)
    with Some have "steady w (putInformer t (i\<lparr>informer_inf := (informer_inf i)\<lparr>store := objs\<rparr>\<rparr>) w)"
      by (rule steady_putInformer)
    with Some Op_store assms(1) show ?thesis by (auto simp: step_def)
  qed
next
  case Op_closeStopChan
  with assms(1) show ?thesis by (auto simp: step_def)
next
  case (Op_schedule k pickStop)
  with assms(1) have "schedule k pickStop w = Returns w'" by (simp add: step_def)
  then show ?thesis by (rule steady_schedule)
qed

lemma evolves_step:
  assumes "step L a w = Returns w'"
  shows "evolves w w'"
proof (cases "\<exists>objType namespace lsel funcs pe. a = Op_addHandler objType namespace lsel funcs pe")
  case True
  then obtain objType namespace lsel funcs pe
    where a: "a = Op_addHandler objType namespace lsel funcs pe" by blast
  with assms obtain r where "addHandler L objType namespace lsel funcs pe w = Returns (r, w')"
    by (auto simp: step_def andThen_eq_Returns)
  then show ?thesis by (rule evolves_addHandler)
next
  case False
  with assms have "steady w w'" by (intro steady_step) auto
  then show ?thesis by (rule steady_evolves)
qed

lemma evolves_run: "run L as w = Returns w' \<Longrightarrow> evolves w w'"
proof (induction as arbitrary: w)
  case Nil
  then show ?case by simp
next
  case (Cons a as)
  from Cons.prems obtain v where v: "step L a w = Returns v" "run L as v = Returns w'"
    by (auto simp: andThen_eq_Returns)
  from evolves_step [OF v(1)] Cons.IH [OF v(2)] show ?case by (rule evolves_trans)
qed

lemma dead_evolves: "dead h n w \<Longrightarrow> evolves w w' \<Longrightarrow> dead h n w'"
  by (auto simp: dead_def evolves_def heap_evolves_def)

lemma example_factory_eq:
  "example_factory =
    \<lparr>handlerCounter = 0,
     informers =
      [(podType, \<lparr>oType = podType,
         informer_inf = \<lparr>store = [example_pod_a, example_pod_b], eventHandlers = [FederatedHandler]\<rparr>,
         handlers = [], events = []\<rparr>),
       (serviceType, \<lparr>oType = serviceType,
         informer_inf = \<lparr>store = [], eventHandlers = [FederatedHandler]\<rparr>,
         handlers = [], events = []\<rparr>),
       (endpointsType, \<lparr>oType = endpointsType,
         informer_inf = \<lparr>store = [], eventHandlers = [FederatedHandler]\<rparr>,
         handlers = [], events = []\<rparr>),
       (policyType, \<lparr>oType = policyType,
         informer_inf = \<lparr>store = [], eventHandlers = [FederatedHandler]\<rparr>,
         handlers = [], events = []\<rparr>),
       (namespaceType, \<lparr>oType = namespaceType,
         informer_inf = \<lparr>store = [], eventHandlers = [FederatedHandler]\<rparr>,
         handlers = [], events = []\<rparr>),
       (nodeType, \<lparr>oType = nodeType,
         informer_inf = \<lparr>store = [example_node], eventHandlers = [FederatedQueuedHandler]\<rparr>,
         handlers = [],
         events = map Some [0..<10]\<rparr>)],
     heap = [],
     chans = replicate 10 \<lparr>chan_buf = [], chan_cap = 1, chan_closed = False\<rparr>,
     goroutines = map (ProcessEvents_go nodeType) [0..<10] @ [Shutdown_go],
     stopChan_closed = False, calls = [], logs = []\<rparr>"
  by (simp add: example_factory_def NewWatchFactory_def newInformer_def newQueuedInformer_def
      newBaseInformer_def AddEventHandler_def putInformer_def numEventQueues_def
      example_client_def Let_def)

lemma example_addHandler_registered:
  "addHandler example_selector podType ''ns-a'' None 7 (Some 8) example_factory =
     Returns (Inr 0,
       registered podType (filterFunc podType ''ns-a'' (None :: unit option) (\<lambda>ls. False)) 7 (Some 8)
         (the (map_of (informers example_factory) podType)) example_factory)"
  by (subst addHandler_Inr [where i = "the (map_of (informers example_factory) podType)"
        and sel = "\<lambda>ls. False"])
    (simp_all add: example_factory_eq example_selector_def)

lemma example_registered_eq:
  "example_registered =
     example_factory
       \<lparr>handlerCounter := 1,
        informers := AList.update podType
          \<lparr>oType = podType,
           informer_inf = \<lparr>store = [example_pod_a, example_pod_b], eventHandlers = [FederatedHandler]\<rparr>,
           handlers = [(1, 0)], events = []\<rparr> (informers example_factory),
        heap := [\<lparr>base = \<lparr>FilterFunc = filterFunc podType ''ns-a'' (None :: unit option) (\<lambda>ls. False),
                         Handler = 7\<rparr>,
                 handler_id = 1, tombstone = handlerAlive\<rparr>],
        calls := [Call_processExisting 8 [example_pod_a] [], Call_OnAdd 7 example_pod_a],
        logs := [Debugf_Added podType 1]\<rparr>"
  unfolding example_registered_def example_addHandler_registered
  unfolding example_factory_eq
  by (simp add: registered_def Let_def processExistingItems_def registryOf_def Filtering_OnAdd_def filterFunc_def
      getObjectMeta_def putInformer_def logrus_def invoke_def example_pod_a_def example_pod_b_def)

lemma example_addHandler:
  "addHandler example_selector podType ''ns-a'' None 7 (Some 8) example_factory =
     Returns (Inr 0, example_registered)"
  unfolding example_registered_def example_addHandler_registered by simp

lemma kill_alive:
  "h < length (heap w) \<Longrightarrow> tombstone (heap w ! h) = handlerAlive \<Longrightarrow>
   kill h w = Returns (None, w\<lparr>heap := (heap w)[h := (heap w ! h)\<lparr>tombstone := handlerDead\<rparr>]\<rparr>)"
  by (simp add: kill_def deref_def)

lemma kill_dead:
  "dead h n w \<Longrightarrow> kill h w = Returns (Some (AlreadyDead n), w)"
  by (simp add: kill_def deref_def dead_def)

lemma kill_None_dead:
  "kill h w = Returns (None, w1) \<Longrightarrow> dead h (handler_id (heap w ! h)) w1"
  by (auto simp: kill_def deref_def dead_def andThen_eq_Returns handlerAlive_def handlerDead_def
      split: if_splits)

lemma dead_silent:
  assumes "dead h n w"
  shows "Handler_OnAdd h ob w = Returns w"
    and "Handler_OnUpdate h oldOb newOb w = Returns w"
    and "Handler_OnDelete h ob w = Returns w"
  using assms
  by (simp_all add: dead_def Handler_OnAdd_def Handler_OnUpdate_def Handler_OnDelete_def deref_def)

lemma dead_run: "dead h n w \<Longrightarrow> run L as w = Returns w' \<Longrightarrow> dead h n w'"
  by (blast intro: dead_evolves evolves_run)

lemma example_killed_run:
  "run example_selector [Op_OnAdd podType example_pod_b, Op_OnDelete podType example_pod_a]
     example_killed = Returns example_killed"
  unfolding example_killed_def example_registered_eq example_factory_eq
  by (simp add: step_def notify_def Federated_AddFunc_def Federated_DeleteFunc_def
      forEachHandler_def getInformer_def Handler_OnAdd_def Handler_OnDelete_def deref_def
      ensureObjectOnDelete_def handlerAlive_def handlerDead_def Let_def
      example_pod_a_def example_pod_b_def)

lemma ensureObjectOnDelete_same: "TypeOf ob = expectedType \<Longrightarrow> ensureObjectOnDelete ob expectedType = Inr ob"
  by (simp add: ensureObjectOnDelete_def)

lemma DeleteFunc_dropped:
  assumes "map_of (informers w) t = Some i" and "ensureObjectOnDelete ob (oType i) = Inl err"
  shows "Federated_DeleteFunc t ob w = Returns (w\<lparr>logs := logs w @ [Errorf_Err err]\<rparr>)"
    and "Queued_DeleteFunc t ob w = Returns (w\<lparr>logs := logs w @ [Errorf_Err err]\<rparr>)"
  using assms
  by (simp_all add: Federated_DeleteFunc_def Queued_DeleteFunc_def getInformer_def logrus_def)

lemma DeleteFunc_delivered:
  assumes "map_of (informers w) t = Some i" and "ensureObjectOnDelete ob (oType i) = Inr realObj"
  shows "Federated_DeleteFunc t ob w = forEachHandler t realObj (\<lambda>h. Handler_OnDelete h realObj) w"
    and "Queued_DeleteFunc t ob w = enqueueEvent t nil realObj deleteEvent w"
  using assms
  by (simp_all add: Federated_DeleteFunc_def Queued_DeleteFunc_def getInformer_def)

lemma example_informers:
  "map_of (informers example_registered) podType =
     Some \<lparr>oType = podType,
           informer_inf = \<lparr>store = [example_pod_a, example_pod_b], eventHandlers = [FederatedHandler]\<rparr>,
           handlers = [(1, 0)], events = []\<rparr>"
  "map_of (informers example_registered) nodeType =
     Some \<lparr>oType = nodeType,
         informer_inf = \<lparr>store = [example_node], eventHandlers = [FederatedQueuedHandler]\<rparr>,
         handlers = [],
         events = map Some [0..<10]\<rparr>"
  by (simp_all add: example_registered_eq example_factory_eq)

lemma example_addHandler_unfiltered_registered:
  "addHandler example_selector podType [] None 9 None example_registered =
     Returns (Inr 1,
       registered podType (filterFunc podType [] (None :: unit option) (\<lambda>ls. False)) 9 None
         (the (map_of (informers example_registered) podType)) example_registered)"
proof -
  have l: "length (heap example_registered) = 1" by (simp add: example_registered_eq)
  show ?thesis
    using addHandler_Inr [where w = example_registered and objType = podType
        and i = "the (map_of (informers example_registered) podType)"
        and L = example_selector and lsel = None and sel = "\<lambda>ls. False"
        and namespace = "[]" and funcs = 9 and pe = None]
    by (simp add: example_informers example_selector_def l)
qed

lemma example_unfiltered_eq:
  "example_unfiltered =
     example_registered
       \<lparr>handlerCounter := 2,
        informers := AList.update podType
          \<lparr>oType = podType,
           informer_inf = \<lparr>store = [example_pod_a, example_pod_b], eventHandlers = [FederatedHandler]\<rparr>,
           handlers = [(1, 0), (2, 1)], events = []\<rparr> (informers example_registered),
        heap := [\<lparr>base = \<lparr>FilterFunc = filterFunc podType ''ns-a'' (None :: unit option) (\<lambda>ls. False),
                         Handler = 7\<rparr>,
                 handler_id = 1, tombstone = handlerAlive\<rparr>,
                 \<lparr>base = \<lparr>FilterFunc = filterFunc podType [] (None :: unit option) (\<lambda>ls. False),
                         Handler = 9\<rparr>,
                 handler_id = 2, tombstone = handlerAlive\<rparr>],
        calls := [Call_processExisting 8 [example_pod_a] [], Call_OnAdd 7 example_pod_a,
                  Call_OnAdd 9 example_pod_a, Call_OnAdd 9 example_pod_b],
        logs := [Debugf_Added podType 1, Debugf_Added podType 2]\<rparr>"
  unfolding example_unfiltered_def example_addHandler_unfiltered_registered
  by (simp add: example_informers)
    (simp add: example_registered_eq example_factory_eq registered_def Let_def
      processExistingItems_def Filtering_OnAdd_def filterFunc_def putInformer_def logrus_def
      invoke_def)

lemma example_addHandler_unfiltered:
  "addHandler example_selector podType [] None 9 None example_registered =
     Returns (Inr 1, example_unfiltered)"
  unfolding example_unfiltered_def example_addHandler_unfiltered_registered by simp

lemma filterFunc_namespace:
  "namespace \<noteq> [] \<Longrightarrow>
   fst (filterFunc objType namespace lsel sel ob) =
     (case getObjectMeta objType ob of
        Inl err \<Rightarrow> False
      | Inr m \<Rightarrow> Namespace m = namespace \<and> (lsel = None \<or> sel (Labels m)))"
  by (auto simp: filterFunc_def split: sum.splits)

lemma informers_evolveD:
  assumes "informers_evolve a b" and "map_of a t = Some i" and "map_of b t = Some i'"
  shows "informer_evolves i i'"
proof -
  from assms(1,2) obtain i'' where "map_of b t = Some i''" "informer_evolves i i''"
    unfolding informers_evolve_def by blast
  with assms(3) show ?thesis by simp
qed

lemma closeEvents_informer:
  assumes "closeEvents t idx w = Returns w'" and "map_of (informers w) t = Some i"
  shows "map_of (informers w') t = Some (i\<lparr>events := (events i)[idx := None]\<rparr>)"
  using assms
  by (auto simp: closeEvents_def getInformer_def update_conv' split: option.splits if_splits)

lemma forEach_closeEvents:
  "forEach idxs (closeEvents t) w = Returns w' \<Longrightarrow> map_of (informers w) t = Some i \<Longrightarrow>
   \<exists>i'. map_of (informers w') t = Some i' \<and> length (events i') = length (events i) \<and>
        (\<forall>j < length (events i). j \<in> set idxs \<or> events i ! j = None \<longrightarrow> events i' ! j = None)"
proof (induction idxs arbitrary: w i)
  case Nil
  then show ?case by simp
next
  case (Cons idx idxs)
  from Cons.prems(1) obtain v where v: "closeEvents t idx w = Returns v"
    "forEach idxs (closeEvents t) v = Returns w'"
    by (auto simp: andThen_eq_Returns)
  let ?i1 = "i\<lparr>events := (events i)[idx := None]\<rparr>"
  from v(1) Cons.prems(2) have "map_of (informers v) t = Some ?i1" by (rule closeEvents_informer)
  from Cons.IH [OF v(2) this] obtain i' where i': "map_of (informers w') t = Some i'"
    "length (events i') = length (events ?i1)"
    "\<forall>j < length (events ?i1). j \<in> set idxs \<or> events ?i1 ! j = None \<longrightarrow> events i' ! j = None"
    by blast
  have "events i' ! j = None" if "j < length (events i)" "j \<in> set (idx # idxs) \<or> events i ! j = None"
    for j
  proof -
    from that have "j \<in> set idxs \<or> events ?i1 ! j = None"
      by (cases "j = idx") (auto simp: nth_list_update)
    with i'(3) that(1) show ?thesis by auto
  qed
  with i'(1,2) show ?case by auto
qed

lemma shutdown_informer:
  assumes "shutdown t w = Returns w'" and "map_of (informers w) t = Some i"
  shows "\<exists>i'. map_of (informers w') t = Some i' \<and> oType i' = oType i
           \<and> events i' = replicate (length (events i)) None"
proof -
  let ?f = "\<lambda>handler w'. andThen (informer_removeHandler t handler w') (\<lambda>(_, w''). Returns w'')"
  from assms obtain w1 where
    1: "forEach (map snd (handlers i)) ?f w = Returns w1"
    and 2: "forEach [0..<length (events i)] (closeEvents t) w1 = Returns w'"
    by (auto simp: shutdown_def andThen_eq_Returns getInformer_def)
  have "steady v v'" if "?f x v = Returns v'" for x v v'
    using that by (auto simp: andThen_eq_Returns dest: steady_informer_removeHandler)
  from this 1 have "steady w w1" by (rule forEach_steady)
  with assms(2) obtain i1 where i1: "map_of (informers w1) t = Some i1" "informer_evolves i i1"
    by (auto simp: steady_def evolves_def informers_evolve_def)
  from forEach_closeEvents [OF 2 i1(1)] obtain i' where i': "map_of (informers w') t = Some i'"
    "length (events i') = length (events i1)"
    "\<forall>j < length (events i1). j \<in> set [0..<length (events i)] \<or> events i1 ! j = None
        \<longrightarrow> events i' ! j = None"
    by blast
  from assms(1) have "steady w w'" by (rule steady_shutdown)
  then have "informers_evolve (informers w) (informers w')"
    by (simp add: steady_def evolves_def)
  from this assms(2) i'(1) have "informer_evolves i i'" by (rule informers_evolveD)
  then have "oType i' = oType i" "length (events i') = length (events i)"
    by (simp_all add: informer_evolves_def)
  moreover from i1(2) i'(3) have "\<forall>j < length (events i). events i' ! j = None"
    by (simp add: informer_evolves_def)
  ultimately have "oType i' = oType i" "events i' = replicate (length (events i)) None"
    by (simp_all add: list_eq_iff_nth_eq)
  with i'(1) show ?thesis by blast
qed

lemma queueIdx_less: "unat (queueIdx meta) < numEventQueues"
  by (simp add: queueIdx_def numEventQueues_def Let_def unat_mod)

lemma enqueueEvent_closed:
  assumes "map_of (informers w) t = Some i" and "events i = replicate numEventQueues None"
  shows "enqueueEvent t oldOb ob knd w =
           Returns (case getObjectMeta (oType i) ob of
                      Inl err \<Rightarrow> logrus (Errorf_NoMeta err) w
                    | Inr meta \<Rightarrow> w)"
  using assms
  by (simp add: enqueueEvent_def getInformer_def Let_def queueIdx_less split: sum.splits)

lemma example_shutdown_eq: "shutdown nodeType example_registered = Returns example_shutdown"
  unfolding example_shutdown_def example_registered_eq example_factory_eq
  by (simp add: shutdown_def getInformer_def closeEvents_def putInformer_def upt_conv_Cons
      numeral_nat)

lemma Write_append: "Write h (xs @ ys) = Write (Write h xs) ys"
  by (induction xs arbitrary: h) simp_all

lemma enqueueEvent_routes:
  assumes "map_of (informers w) t = Some i" and "length (events i) = numEventQueues"
    and "getObjectMeta (oType i) ob = Inr meta"
  shows "enqueueEvent t oldOb ob knd w =
           (case events i ! unat (queueIdx meta) of
              None \<Rightarrow> Returns w
            | Some c \<Rightarrow> send c \<lparr>event_obj = ob, event_oldObj = oldOb, event_kind = knd\<rparr> w)"
  using assms queueIdx_less [of meta]
  by (simp add: enqueueEvent_def getInformer_def Let_def)

lemma informer_removeHandler_alive:
  assumes "map_of (informers w) t = Some i" and "h < length (heap w)"
    and "tombstone (heap w ! h) = handlerAlive"
  shows "informer_removeHandler t h w =
     Returns (None,
       w\<lparr>heap := (heap w)[h := (heap w ! h)\<lparr>tombstone := handlerDead\<rparr>],
         logs := logs w @ [Debugf_SendingForRemoval (oType i) (handler_id (heap w ! h))],
         goroutines := goroutines w @ [RemoveHandler_go t h]\<rparr>)"
  using assms
  by (simp add: informer_removeHandler_def kill_def deref_def getInformer_def logrus_def Let_def)

lemma informer_removeHandler_dead:
  assumes "h < length (heap w)" and "tombstone (heap w ! h) \<noteq> handlerAlive"
  shows "informer_removeHandler t h w = Returns (Some (AlreadyDead (handler_id (heap w ! h))), w)"
  using assms by (simp add: informer_removeHandler_def kill_def deref_def)

lemma example_service_informer:
  "map_of (informers example_registered) serviceType =
     Some \<lparr>oType = serviceType,
         informer_inf = \<lparr>store = [], eventHandlers = [FederatedHandler]\<rparr>,
         handlers = [], events = []\<rparr>"
  by (simp add: example_registered_eq example_factory_eq)

lemma example_handler:
  "heap example_registered =
     [\<lparr>base = \<lparr>FilterFunc = filterFunc podType ''ns-a'' (None :: unit option) (\<lambda>ls. False),
                         Handler = 7\<rparr>,
                 handler_id = 1, tombstone = handlerAlive\<rparr>]"
  by (simp add: example_registered_eq)

lemma addHandler_id:
  assumes "addHandler L objType namespace lsel funcs pe w = Returns (Inr h, w')"
  shows "handler_id (heap w' ! h) = handlerCounter w + 1"
    and "handlerCounter w' = handlerCounter w + 1"
  using assms by (cases rule: addHandler_cases; simp add: registered_heap registered_handlerCounter)+

lemma addHandler_error:
  assumes "addHandler L objType namespace lsel funcs pe w = Returns (Inl err, w')"
  shows "w' = w"
  using assms by (cases rule: addHandler_cases) simp_all

lemma upt_Suc_shift: "[Suc 0..<Suc (Suc n)] = Suc 0 # map Suc [Suc 0..<Suc n]"
  by (simp add: upt_conv_Cons map_Suc_upt del: upt_Suc)

lemma returned_ids_other:
  assumes "\<And>objType namespace lsel funcs pe. a \<noteq> Op_addHandler objType namespace lsel funcs pe"
  shows "returned_ids L (a # as) w =
           (case step L a w of Returns w1 \<Rightarrow> returned_ids L as w1 | _ \<Rightarrow> [])"
  using assms by (cases a) (blast, simp_all)

lemma returned_ids_from_counter:
  "\<exists>n. returned_ids L as w = map (\<lambda>k. handlerCounter w + of_nat k) [1..<Suc n]"
proof (induction as arbitrary: w)
  case Nil
  have "returned_ids L [] w = map (\<lambda>k. handlerCounter w + of_nat k) [1..<Suc 0]" by simp
  then show ?case by blast
next
  case (Cons a as)
  have stop: ?case if "returned_ids L (a # as) w = []"
  proof -
    from that have "returned_ids L (a # as) w = map (\<lambda>k. handlerCounter w + of_nat k) [1..<Suc 0]"
      by simp
    then show ?thesis by blast
  qed
  show ?case
  proof (cases "\<exists>objType namespace lsel funcs pe. a = Op_addHandler objType namespace lsel funcs pe")
    case True
    then obtain objType namespace lsel funcs pe
      where a: "a = Op_addHandler objType namespace lsel funcs pe" by blast
    show ?thesis
    proof (cases "addHandler L objType namespace lsel funcs pe w")
      case (Returns r)
      obtain res w1 where r: "r = (res, w1)" by (cases r)
      show ?thesis
      proof (cases res)
        case (Inl err)
        with Returns r have "w1 = w" by (simp add: addHandler_error)
        with a Returns r Inl have "returned_ids L (a # as) w = returned_ids L as w" by simp
        with Cons.IH [of w] show ?thesis by simp
      next
        case (Inr h)
        from Returns r Inr have c: "handler_id (heap w1 ! h) = handlerCounter w + 1"
          "handlerCounter w1 = handlerCounter w + 1"
          by (simp_all add: addHandler_id)
        from Cons.IH [of w1] c obtain n where
          "returned_ids L as w1 = map (\<lambda>k. handlerCounter w + 1 + of_nat k) [1..<Suc n]"
          by auto
        then have "returned_ids L as w1
                     = map (\<lambda>k. handlerCounter w + of_nat k) (map Suc [1..<Suc n])"
          by (simp add: o_def add.assoc add.commute)
        moreover from a Returns r Inr c have
          "returned_ids L (a # as) w = (handlerCounter w + 1) # returned_ids L as w1"
          by simp
        ultimately have "returned_ids L (a # as) w
                     = map (\<lambda>k. handlerCounter w + of_nat k) [1..<Suc (Suc n)]"
          by (simp add: upt_Suc_shift del: upt_Suc)
        then show ?thesis by blast
      qed
    next
      case (Panics p)
      with a show ?thesis by (intro stop) simp
    next
      case Blocks
      with a show ?thesis by (intro stop) simp
    qed
  next
    case False
    then have o: "returned_ids L (a # as) w =
           (case step L a w of Returns w1 \<Rightarrow> returned_ids L as w1 | _ \<Rightarrow> [])"
      by (intro returned_ids_other) blast
    show ?thesis
    proof (cases "step L a w")
      case (Returns w1)
      with False have "steady w w1" by (intro steady_step) auto
      then have "handlerCounter w1 = handlerCounter w" by (simp add: steady_def)
      moreover from o Returns have "returned_ids L (a # as) w = returned_ids L as w1" by simp
      ultimately show ?thesis using Cons.IH [of w1] by simp
    next
      case (Panics p)
      with o show ?thesis by (intro stop) simp
    next
      case Blocks
      with o show ?thesis by (intro stop) simp
    qed
  qed
qed

lemma returned_ids_count:
  "returned_ids L as w =
     map (\<lambda>k. handlerCounter w + of_nat k) [1..<Suc (length (returned_ids L as w))]"
proof -
  from returned_ids_from_counter [of L as w] obtain n where
    n: "returned_ids L as w = map (\<lambda>k. handlerCounter w + of_nat k) [1..<Suc n]" by blast
  then have "length (returned_ids L as w) = n" by simp
  with n show ?thesis by simp
qed

lemma unat_counter_plus:
  "unat (c :: 64 word) + k < 2 ^ 64 \<Longrightarrow> unat (c + of_nat k) = unat c + k"
  by (simp add: unat_word_ariths unat_of_nat)

lemma counter_plus_less:
  fixes c :: "64 word"
  assumes "j < k" and "unat c + k < 2 ^ 64"
  shows "c + of_nat j < c + of_nat k"
proof -
  from assms have "unat (c + of_nat j) = unat c + j" "unat (c + of_nat k) = unat c + k"
    by (simp_all add: unat_counter_plus)
  with assms(1) show ?thesis by (simp add: word_less_nat_alt)
qed

lemma addHandler_eq:
  "addHandler L objType namespace lsel funcs pe w =
     (case map_of (informers w) objType of
        None \<Rightarrow> Returns (Inl (UnknownObjectType objType), w)
      | Some i \<Rightarrow>
          (case L lsel of
             Inl err \<Rightarrow> Returns (Inl (LabelSelectorError err), w)
           | Inr sel \<Rightarrow>
               Returns (Inr (length (heap w)),
                 registered objType (filterFunc objType namespace lsel sel) funcs pe i w)))"
proof (cases "map_of (informers w) objType")
  case None
  then show ?thesis by (simp add: addHandler_def)
next
  case (Some i)
  show ?thesis
  proof (cases "L lsel")
    case (Inl err)
    with Some show ?thesis by (simp add: addHandler_def)
  next
    case (Inr sel)
    with Some show ?thesis by (simp add: addHandler_Inr)
  qed
qed

lemma replicate_registrations:
  assumes "L lsel = Inr sel"
  shows "map_of (informers w) objType \<noteq> None \<Longrightarrow>
    length (returned_ids L (replicate n (Op_addHandler objType namespace lsel funcs pe)) w) = n"
proof (induction n arbitrary: w)
  case 0
  show ?case by simp
next
  case (Suc n)
  from Suc.prems obtain i where i: "map_of (informers w) objType = Some i" by auto
  let ?w1 = "registered objType (filterFunc objType namespace lsel sel) funcs pe i w"
  have "map_of (informers ?w1) objType \<noteq> None"
    by (simp add: registered_informers update_conv')
  from Suc.IH [OF this] i assms show ?case
    by (simp add: addHandler_eq)
qed

section \<open>The properties claimed of the factory\<close>

text \<open>
  C1. Once \<open>kill\<close> has moved a handler's tombstone from alive to dead, every later call of
  \<open>OnAdd\<close>, \<open>OnUpdate\<close> or \<open>OnDelete\<close> on that handler does nothing: whatever the program
  did in between (\<open>run\<close>, any sequence of steps that returns), the call returns the state it
  was given, so no subscriber callback is invoked and nothing is logged.
\<close>

theorem killed_handler_is_never_called:
  assumes "kill h w = Returns (None, w1)" and "run L as w1 = Returns w2"
  shows "Handler_OnAdd h ob w2 = Returns w2
       \<and> Handler_OnUpdate h oldOb newOb w2 = Returns w2
       \<and> Handler_OnDelete h ob w2 = Returns w2"
proof -
  from assms(1) have "dead h (handler_id (heap w ! h)) w1" by (rule kill_None_dead)
  from this assms(2) have "dead h (handler_id (heap w ! h)) w2" by (rule dead_run)
  then show ?thesis by (simp add: dead_silent)
qed

theorem killed_handler_is_never_called_witness:
  "kill 0 example_registered = Returns (None, example_killed)
   \<and> run example_selector [Op_OnAdd podType example_pod_b, Op_OnDelete podType example_pod_a]
         example_killed = Returns example_killed
   \<and> Handler_OnAdd 0 example_pod_a example_registered
       = Returns (invoke (Call_OnAdd 7 example_pod_a) example_registered)
   \<and> Handler_OnAdd 0 example_pod_a example_killed = Returns example_killed
   \<and> Handler_OnUpdate 0 example_pod_a example_pod_a example_killed = Returns example_killed
   \<and> Handler_OnDelete 0 example_pod_a example_killed = Returns example_killed"
proof -
  have k: "kill 0 example_registered = Returns (None, example_killed)"
    unfolding example_killed_def by (simp add: kill_alive example_registered_eq)
  have a: "Handler_OnAdd 0 example_pod_a example_registered
       = Returns (invoke (Call_OnAdd 7 example_pod_a) example_registered)"
    by (simp add: example_registered_eq Handler_OnAdd_def deref_def Filtering_OnAdd_def
        filterFunc_def getObjectMeta_def example_pod_a_def invoke_def)
  from killed_handler_is_never_called [OF k example_killed_run] k example_killed_run a
  show ?thesis by simp
qed

text \<open>
  C2. The queue index that \<open>enqueueEvent\<close> computes is the 32-bit FNV-1 hash of the
  namespaced name of the object, reduced modulo \<open>numEventQueues\<close>, which is 10. The
  namespaced name is the namespace, a slash and the name; for an object without
  namespace it is the name alone. So the index is below 10, two objects with the same
  namespace and name have the same index whatever else differs, and on an informer with
  its ten queues every event for an object, of whatever kind and with whatever old object,
  goes to the channel in the slot of that index: a delete and a later add of the same
  identity are routed alike.
\<close>

theorem queue_index_of_namespaced_name:
  "queueIdx meta =
     Sum32 (Write New32
       ((if Namespace meta \<noteq> [] then Namespace meta @ ''/'' else []) @ Name meta)) mod 10
   \<and> unat (queueIdx meta) < 10
   \<and> (Namespace meta' = Namespace meta \<and> Name meta' = Name meta \<longrightarrow>
        queueIdx meta' = queueIdx meta)
   \<and> (map_of (informers w) t = Some i \<and> length (events i) = numEventQueues
        \<and> getObjectMeta (oType i) ob = Inr meta \<longrightarrow>
        enqueueEvent t oldOb ob knd w =
          (case events i ! unat (queueIdx meta) of
             None \<Rightarrow> Returns w
           | Some c \<Rightarrow> send c \<lparr>event_obj = ob, event_oldObj = oldOb, event_kind = knd\<rparr> w))"
proof (intro conjI impI)
  show "queueIdx meta =
     Sum32 (Write New32
       ((if Namespace meta \<noteq> [] then Namespace meta @ ''/'' else []) @ Name meta)) mod 10"
    by (simp add: queueIdx_def Let_def Write_append numEventQueues_def)
  show "unat (queueIdx meta) < 10"
    using queueIdx_less [of meta] by (simp add: numEventQueues_def)
  show "queueIdx meta' = queueIdx meta"
    if "Namespace meta' = Namespace meta \<and> Name meta' = Name meta"
    using that by (simp add: queueIdx_def)
  show "enqueueEvent t oldOb ob knd w =
          (case events i ! unat (queueIdx meta) of
             None \<Rightarrow> Returns w
           | Some c \<Rightarrow> send c \<lparr>event_obj = ob, event_oldObj = oldOb, event_kind = knd\<rparr> w)"
    if "map_of (informers w) t = Some i \<and> length (events i) = numEventQueues
        \<and> getObjectMeta (oType i) ob = Inr meta"
    using that by (simp add: enqueueEvent_routes)
qed

theorem queue_index_of_namespaced_name_witness:
  "queueIdx \<lparr>Name = ''node1'', Namespace = [], Labels = []\<rparr> = Sum32 (Write New32 ''node1'') mod 10
   \<and> queueIdx \<lparr>Name = ''node1'', Namespace = [], Labels = []\<rparr> = 4
   \<and> queueIdx \<lparr>Name = ''web'', Namespace = ''ns-a'', Labels = [(''app'', ''web'')]\<rparr>
       = Sum32 (Write New32 ''ns-a/web'') mod 10
   \<and> queueIdx \<lparr>Name = ''web'', Namespace = ''ns-a'', Labels = [(''app'', ''web'')]\<rparr> = 3
   \<and> queueIdx \<lparr>Name = ''web'', Namespace = ''ns-a'', Labels = []\<rparr>
       = queueIdx \<lparr>Name = ''web'', Namespace = ''ns-a'', Labels = [(''app'', ''web'')]\<rparr>
   \<and> enqueueEvent nodeType nil example_node deleteEvent example_registered
       = send 4 \<lparr>event_obj = example_node, event_oldObj = nil, event_kind = deleteEvent\<rparr>
           example_registered
   \<and> enqueueEvent nodeType example_node example_node addEvent example_registered
       = send 4 \<lparr>event_obj = example_node, event_oldObj = example_node, event_kind = addEvent\<rparr>
           example_registered"
proof -
  let ?n = "\<lparr>Name = ''node1'', Namespace = [], Labels = []\<rparr>"
  let ?p = "\<lparr>Name = ''web'', Namespace = ''ns-a'', Labels = [(''app'', ''web'')]\<rparr>"
  let ?i = "the (map_of (informers example_registered) nodeType)"
  have n: "Sum32 (Write New32 ''node1'') mod 10 = 4"
    and p: "Sum32 (Write New32 ''ns-a/web'') mod 10 = 3"
    by (simp_all add: New32_def offset32_def prime32_def Sum32_def)
  have m: "getObjectMeta nodeType example_node = Inr ?n"
    by (simp add: getObjectMeta_def example_node_def)
  have s: "map Some [0..<10 :: nat] ! 4 = Some 4" by simp
  from queue_index_of_namespaced_name
         [of ?n ?n example_registered nodeType ?i example_node nil deleteEvent]
       queue_index_of_namespaced_name
         [of ?n ?n example_registered nodeType ?i example_node example_node addEvent]
       queue_index_of_namespaced_name
         [of ?p "\<lparr>Name = ''web'', Namespace = ''ns-a'', Labels = []\<rparr>"]
       n p m s
  show ?thesis by (simp add: example_informers numEventQueues_def)
qed

text \<open>
  C3. A registration with a namespace filter, for a type that has an informer. The items
  are the objects of the informer's store, in its order, whose metadata can be taken and
  has that namespace (and labels that the selector matches, if one is given). The
  registration returns a new handler, and in the state it returns the subscriber's
  functions have been called as follows and no further: first \<open>processExisting\<close>, once, with
  exactly the items; the registry that this call found is the one of before the
  registration, \<open>handlers i\<close>, to which the handler had not yet been added; then the add
  callback, once for each item, in order, and for nothing else. In the state returned the
  registry is the one that \<open>processExisting\<close> found with the new handler added under the next
  id, and the handler is alive.
\<close>

theorem registration_replays_the_matching_objects:
  assumes "map_of (informers w) objType = Some i" and "L lsel = Inr sel"
    and "namespace \<noteq> []"
    and "items = filter (\<lambda>ob. case getObjectMeta objType ob of
                                 Inl err \<Rightarrow> False
                               | Inr m \<Rightarrow> Namespace m = namespace \<and> (lsel = None \<or> sel (Labels m)))
                   (store (informer_inf i))"
  shows "\<exists>w'. addHandler L objType namespace lsel funcs (Some pe) w
                = Returns (Inr (length (heap w)), w')
           \<and> calls w' = calls w @ [Call_processExisting pe items (handlers i)]
                           @ map (Call_OnAdd funcs) items
           \<and> map_of (informers w') objType =
               Some (i\<lparr>handlers := AList.update (handlerCounter w + 1) (length (heap w)) (handlers i)\<rparr>)
           \<and> heap w' = heap w @
               [\<lparr>base = \<lparr>FilterFunc = filterFunc objType namespace lsel sel, Handler = funcs\<rparr>,
                 handler_id = handlerCounter w + 1, tombstone = handlerAlive\<rparr>]"
proof -
  let ?ff = "filterFunc objType namespace lsel sel"
  let ?w' = "registered objType ?ff funcs (Some pe) i w"
  from assms(3,4) have items: "items = filter (\<lambda>ob. fst (?ff ob)) (store (informer_inf i))"
    by (simp add: filterFunc_namespace)
  from assms(1) have r: "registryOf objType w = handlers i" by (simp add: registryOf_def)
  have "addHandler L objType namespace lsel funcs (Some pe) w = Returns (Inr (length (heap w)), ?w')"
    using assms(1,2) by (rule addHandler_Inr)
  moreover have "calls ?w' = calls w @ [Call_processExisting pe items (handlers i)]
                           @ map (Call_OnAdd funcs) items"
    unfolding items by (simp add: calls_registered r)
  moreover have "map_of (informers ?w') objType =
               Some (i\<lparr>handlers := AList.update (handlerCounter w + 1) (length (heap w)) (handlers i)\<rparr>)"
    by (simp add: registered_informers update_conv')
  moreover have "heap ?w' = heap w @
               [\<lparr>base = \<lparr>FilterFunc = ?ff, Handler = funcs\<rparr>,
                 handler_id = handlerCounter w + 1, tombstone = handlerAlive\<rparr>]"
    by (simp add: registered_heap)
  ultimately show ?thesis by blast
qed

theorem registration_replays_the_matching_objects_witness:
  "map_of (informers example_factory) podType =
     Some \<lparr>oType = podType,
           informer_inf = \<lparr>store = [example_pod_a, example_pod_b], eventHandlers = [FederatedHandler]\<rparr>,
           handlers = [], events = []\<rparr>
   \<and> example_selector None = Inr (\<lambda>ls. False)
   \<and> filter (\<lambda>ob. case getObjectMeta podType ob of
                      Inl err \<Rightarrow> False
                    | Inr m \<Rightarrow> Namespace m = ''ns-a'' \<and> ((None :: unit option) = None \<or> False))
        [example_pod_a, example_pod_b] = [example_pod_a]
   \<and> addHandler example_selector podType ''ns-a'' None 7 (Some 8) example_factory
       = Returns (Inr 0, example_registered)
   \<and> calls example_registered
       = [Call_processExisting 8 [example_pod_a] [], Call_OnAdd 7 example_pod_a]
   \<and> map_of (informers example_registered) podType =
       Some \<lparr>oType = podType,
           informer_inf = \<lparr>store = [example_pod_a, example_pod_b], eventHandlers = [FederatedHandler]\<rparr>,
           handlers = [(1, 0)], events = []\<rparr>
   \<and> heap example_registered =
       [\<lparr>base = \<lparr>FilterFunc = filterFunc podType ''ns-a'' (None :: unit option) (\<lambda>ls. False),
                 Handler = 7\<rparr>,
         handler_id = 1, tombstone = handlerAlive\<rparr>]"
proof -
  let ?i = "\<lparr>oType = podType,
           informer_inf = \<lparr>store = [example_pod_a, example_pod_b], eventHandlers = [FederatedHandler]\<rparr>,
           handlers = [], events = []\<rparr>"
  have 1: "map_of (informers example_factory) podType = Some ?i"
    by (simp add: example_factory_eq)
  have 2: "example_selector None = Inr (\<lambda>ls. False)" by (simp add: example_selector_def)
  have 3: "''ns-a'' \<noteq> []" by simp
  have 4: "filter (\<lambda>ob. case getObjectMeta podType ob of
                      Inl err \<Rightarrow> False
                    | Inr m \<Rightarrow> Namespace m = ''ns-a'' \<and> ((None :: unit option) = None \<or> False))
        [example_pod_a, example_pod_b] = [example_pod_a]"
    by (simp add: getObjectMeta_def example_pod_a_def example_pod_b_def)
  then have f4: "[example_pod_a] = filter (\<lambda>ob. case getObjectMeta podType ob of
                      Inl err \<Rightarrow> False
                    | Inr m \<Rightarrow> Namespace m = ''ns-a'' \<and> ((None :: unit option) = None \<or> False))
        (store (informer_inf ?i))"
    by simp
  from registration_replays_the_matching_objects
         [where w = example_factory and objType = podType and i = ?i and L = example_selector
            and lsel = None and sel = "\<lambda>ls. False" and namespace = "''ns-a''"
            and items = "[example_pod_a]" and pe = 8 and funcs = 7, OF 1 2 3 f4]
  obtain w' where r: "addHandler example_selector podType ''ns-a'' None 7 (Some 8) example_factory
                = Returns (Inr (length (heap example_factory)), w')"
    and c: "calls w' = calls example_factory @ [Call_processExisting 8 [example_pod_a] (handlers ?i)]
                         @ map (Call_OnAdd 7) [example_pod_a]"
    and m: "map_of (informers w') podType =
               Some (?i\<lparr>handlers := AList.update (handlerCounter example_factory + 1)
                 (length (heap example_factory)) (handlers ?i)\<rparr>)"
    and h: "heap w' = heap example_factory @
               [\<lparr>base = \<lparr>FilterFunc = filterFunc podType ''ns-a'' (None :: unit option) (\<lambda>ls. False),
                         Handler = 7\<rparr>,
                 handler_id = handlerCounter example_factory + 1, tombstone = handlerAlive\<rparr>]"
    by blast
  from r example_addHandler have w': "w' = example_registered" by simp
  have e: "calls example_factory = []" "heap example_factory = []"
    "handlerCounter example_factory = 0"
    by (simp_all add: example_factory_eq)
  from c e w'
  have "calls example_registered
          = [Call_processExisting 8 [example_pod_a] [], Call_OnAdd 7 example_pod_a]"
    by simp
  moreover from m e w'
  have "map_of (informers example_registered) podType =
       Some \<lparr>oType = podType,
           informer_inf = \<lparr>store = [example_pod_a, example_pod_b], eventHandlers = [FederatedHandler]\<rparr>,
           handlers = [(1, 0)], events = []\<rparr>"
    by simp
  moreover from h e w'
  have "heap example_registered =
       [\<lparr>base = \<lparr>FilterFunc = filterFunc podType ''ns-a'' (None :: unit option) (\<lambda>ls. False),
                 Handler = 7\<rparr>,
         handler_id = 1, tombstone = handlerAlive\<rparr>]"
    by simp
  ultimately show ?thesis using 1 2 4 example_addHandler by blast
qed

text \<open>
  C4. On a handler whose tombstone is alive, as every new handler's is, \<open>kill\<close> succeeds and
  changes nothing but that tombstone, which becomes dead. A second call, at once or after
  any further steps of the program, fails with the "already dead" error that names the
  handler's id, and leaves the whole state as it was.
\<close>

theorem kill_succeeds_once:
  assumes "h < length (heap w)" and "tombstone (heap w ! h) = handlerAlive"
    and "w1 = w\<lparr>heap := (heap w)[h := (heap w ! h)\<lparr>tombstone := handlerDead\<rparr>]\<rparr>"
    and "run L as w1 = Returns w2"
  shows "kill h w = Returns (None, w1)
       \<and> kill h w1 = Returns (Some (AlreadyDead (handler_id (heap w ! h))), w1)
       \<and> kill h w2 = Returns (Some (AlreadyDead (handler_id (heap w ! h))), w2)"
proof -
  from assms(1-3) have k: "kill h w = Returns (None, w1)" by (simp add: kill_alive)
  then have d1: "dead h (handler_id (heap w ! h)) w1" by (rule kill_None_dead)
  from this assms(4) have "dead h (handler_id (heap w ! h)) w2" by (rule dead_run)
  with k d1 show ?thesis by (simp add: kill_dead)
qed

theorem kill_succeeds_once_witness:
  "0 < length (heap example_registered)
   \<and> tombstone (heap example_registered ! 0) = handlerAlive
   \<and> run example_selector [Op_OnAdd podType example_pod_b, Op_OnDelete podType example_pod_a]
         example_killed = Returns example_killed
   \<and> kill 0 example_registered = Returns (None, example_killed)
   \<and> kill 0 example_killed = Returns (Some (AlreadyDead 1), example_killed)"
proof -
  have 1: "0 < length (heap example_registered)"
    and 2: "tombstone (heap example_registered ! 0) = handlerAlive"
    and 3: "handler_id (heap example_registered ! 0) = 1"
    by (simp_all add: example_registered_eq)
  from kill_succeeds_once [OF 1 2 example_killed_def example_killed_run] 1 2 3 example_killed_run
  show ?thesis by simp
qed

text \<open>
  C5 as the specification states it does not hold: the handler registered for pods, with
  id 1, is not in the registry of the services informer, and yet removing it through that
  informer returns no error, and kills the handler.
\<close>

theorem removeHandler_unknown_id_counterexample:
  "map_of (handlers (the (map_of (informers example_registered) serviceType)))
     (handler_id (heap example_registered ! 0)) = None
   \<and> removeHandler serviceType 0 example_registered = Returns (None, example_removed)
   \<and> tombstone (heap example_removed ! 0) = handlerDead"
  unfolding example_removed_def
  by (simp add: example_service_informer example_handler removeHandler_def
      informer_removeHandler_alive)

text \<open>
  C5, as the code has it. For a type that has an informer and a handler that is alive,
  \<open>removeHandler\<close> succeeds whether or not the handler's id is in that informer's registry:
  it sets the tombstone to dead, logs, and starts the goroutine that will delete the id;
  the registries are as before when it returns. The goroutine, when it runs, deletes the
  id from the registry if it is there, and otherwise only logs a warning. \<open>removeHandler\<close>
  fails with "already dead" on a handler that is not alive, and with its own error on a
  type that has no informer; in both cases the state is unchanged.
\<close>

theorem removeHandler_of_a_live_handler:
  assumes "h < length (heap w)"
    and "w1 = w\<lparr>heap := (heap w)[h := (heap w ! h)\<lparr>tombstone := handlerDead\<rparr>],
              logs := logs w @ [Debugf_SendingForRemoval (oType i) (handler_id (heap w ! h))],
              goroutines := goroutines w @ [RemoveHandler_go objType h]\<rparr>"
  shows "(map_of (informers w) objType = Some i \<and> tombstone (heap w ! h) = handlerAlive \<longrightarrow>
            removeHandler objType h w = Returns (None, w1)
            \<and> informers w1 = informers w
            \<and> removeHandler_go objType h w1 =
                Returns (case map_of (handlers i) (handler_id (heap w ! h)) of
                   Some x \<Rightarrow> logrus (Debugf_Removed (oType i) (handler_id (heap w ! h)))
                     (putInformer objType
                        (i\<lparr>handlers := AList.delete (handler_id (heap w ! h)) (handlers i)\<rparr>) w1)
                 | None \<Rightarrow> logrus (Warningf_RemoveUnknown (oType i) (handler_id (heap w ! h))) w1))
       \<and> (map_of (informers w) objType = Some i \<and> tombstone (heap w ! h) \<noteq> handlerAlive \<longrightarrow>
            removeHandler objType h w
              = Returns (Some (AlreadyDead (handler_id (heap w ! h))), w))
       \<and> (map_of (informers w) objType = None \<longrightarrow>
            removeHandler objType h w = Returns (Some (RemoveUnknownObjectType objType), w))"
proof (intro conjI impI)
  assume a: "map_of (informers w) objType = Some i \<and> tombstone (heap w ! h) = handlerAlive"
  with assms show "removeHandler objType h w = Returns (None, w1)"
    by (simp add: removeHandler_def informer_removeHandler_alive)
  from assms(2) show "informers w1 = informers w" by simp
  from a assms show "removeHandler_go objType h w1 =
                Returns (case map_of (handlers i) (handler_id (heap w ! h)) of
                   Some x \<Rightarrow> logrus (Debugf_Removed (oType i) (handler_id (heap w ! h)))
                     (putInformer objType
                        (i\<lparr>handlers := AList.delete (handler_id (heap w ! h)) (handlers i)\<rparr>) w1)
                 | None \<Rightarrow> logrus (Warningf_RemoveUnknown (oType i) (handler_id (heap w ! h))) w1)"
    by (simp add: removeHandler_go_def getInformer_def deref_def split: option.splits)
next
  assume "map_of (informers w) objType = Some i \<and> tombstone (heap w ! h) \<noteq> handlerAlive"
  with assms(1) show "removeHandler objType h w
              = Returns (Some (AlreadyDead (handler_id (heap w ! h))), w)"
    by (simp add: removeHandler_def informer_removeHandler_dead)
next
  assume "map_of (informers w) objType = None"
  then show "removeHandler objType h w = Returns (Some (RemoveUnknownObjectType objType), w)"
    by (simp add: removeHandler_def)
qed

theorem removeHandler_of_a_live_handler_witness:
  "0 < length (heap example_registered)
   \<and> map_of (informers example_registered) serviceType =
       Some \<lparr>oType = serviceType,
         informer_inf = \<lparr>store = [], eventHandlers = [FederatedHandler]\<rparr>,
         handlers = [], events = []\<rparr>
   \<and> tombstone (heap example_registered ! 0) = handlerAlive
   \<and> removeHandler serviceType 0 example_registered = Returns (None, example_removed)
   \<and> removeHandler_go serviceType 0 example_removed
       = Returns (logrus (Warningf_RemoveUnknown serviceType 1) example_removed)
   \<and> tombstone (heap example_removed ! 0) \<noteq> handlerAlive
   \<and> removeHandler podType 0 example_removed = Returns (Some (AlreadyDead 1), example_removed)
   \<and> map_of (informers example_registered) (OtherType ''*v1.ConfigMap'') = None
   \<and> removeHandler (OtherType ''*v1.ConfigMap'') 0 example_registered
       = Returns (Some (RemoveUnknownObjectType (OtherType ''*v1.ConfigMap'')), example_registered)"
proof -
  let ?s = "\<lparr>oType = serviceType,
         informer_inf = \<lparr>store = [], eventHandlers = [FederatedHandler]\<rparr>,
         handlers = [], events = []\<rparr>"
  have 1: "0 < length (heap example_registered)" by (simp add: example_handler)
  have a: "tombstone (heap example_registered ! 0) = handlerAlive"
    "handler_id (heap example_registered ! 0) = 1"
    by (simp_all add: example_handler)
  have r: "example_removed = example_registered
       \<lparr>heap := (heap example_registered)
          [0 := (heap example_registered ! 0)\<lparr>tombstone := handlerDead\<rparr>],
        logs := logs example_registered @
          [Debugf_SendingForRemoval (oType ?s) (handler_id (heap example_registered ! 0))],
        goroutines := goroutines example_registered @ [RemoveHandler_go serviceType 0]\<rparr>"
    by (simp add: example_removed_def a)
  have d: "0 < length (heap example_removed)" "tombstone (heap example_removed ! 0) \<noteq> handlerAlive"
    "handler_id (heap example_removed ! 0) = 1"
    "map_of (informers example_removed) podType = map_of (informers example_registered) podType"
    by (simp_all add: example_removed_def example_handler handlerAlive_def handlerDead_def)
  have n: "map_of (informers example_registered) (OtherType ''*v1.ConfigMap'') = None"
    by (simp add: example_registered_eq example_factory_eq)
  from removeHandler_of_a_live_handler [OF 1 r]
       removeHandler_of_a_live_handler
         [where w = example_removed and h = 0 and objType = podType
            and i = "the (map_of (informers example_registered) podType)", OF d(1) refl]
       removeHandler_of_a_live_handler
         [where w = example_registered and h = 0 and objType = "OtherType ''*v1.ConfigMap''"
            and i = ?s, OF 1 refl]
       1 a d n
  show ?thesis by (simp add: example_service_informer example_informers)
qed

text \<open>
  C6. A registration for a type the factory has no informer for fails with the error
  "unknown object type" and returns the state it was given: no registry, counter, heap,
  queue, call or log has changed, so no handler was made, \<open>processExisting\<close> was not called
  and no add was delivered.
\<close>

theorem addHandler_unknown_type:
  assumes "map_of (informers w) objType = None"
  shows "addHandler L objType namespace lsel funcs pe w
           = Returns (Inl (UnknownObjectType objType), w)"
  using assms by (simp add: addHandler_def)

theorem addHandler_unknown_type_witness:
  "map_of (informers example_registered) (OtherType ''*v1.ConfigMap'') = None
   \<and> addHandler example_selector (OtherType ''*v1.ConfigMap'') ''ns-a'' None 7 (Some 8)
         example_registered
       = Returns (Inl (UnknownObjectType (OtherType ''*v1.ConfigMap'')), example_registered)"
proof -
  have 1: "map_of (informers example_registered) (OtherType ''*v1.ConfigMap'') = None"
    by (simp add: example_registered_eq example_factory_eq)
  from addHandler_unknown_type [OF 1] 1 show ?thesis by simp
qed

text \<open>
  C7. \<open>ensureObjectOnDelete\<close> returns an object of the expected type as it is; from a
  "final state unknown" placeholder it returns the object the placeholder holds when that
  has the expected type, and an error when it has not. Both delete callbacks pass the
  object so recovered on, and on any error of \<open>ensureObjectOnDelete\<close> they log the error and
  return: the state is the old one with one more log line, so no handler is invoked,
  nothing is put in a queue and no goroutine is started that could try again.
\<close>

theorem delete_event_placeholder:
  "(TypeOf ob = expectedType \<longrightarrow> ensureObjectOnDelete ob expectedType = Inr ob)
   \<and> (expectedType \<noteq> DeletedFinalStateUnknownType \<and> TypeOf inner = expectedType \<longrightarrow>
        ensureObjectOnDelete (DeletedFinalStateUnknown key inner) expectedType = Inr inner)
   \<and> (expectedType \<noteq> DeletedFinalStateUnknownType \<and> TypeOf inner \<noteq> expectedType \<longrightarrow>
        ensureObjectOnDelete (DeletedFinalStateUnknown key inner) expectedType
          = Inl (UnexpectedTombstoneObjectType expectedType (TypeOf inner)))
   \<and> (map_of (informers w) t = Some i \<and> ensureObjectOnDelete ob (oType i) = Inr realObj \<longrightarrow>
        Federated_DeleteFunc t ob w
          = forEachHandler t realObj (\<lambda>h. Handler_OnDelete h realObj) w
        \<and> Queued_DeleteFunc t ob w = enqueueEvent t nil realObj deleteEvent w)
   \<and> (map_of (informers w) t = Some i \<and> ensureObjectOnDelete ob (oType i) = Inl err \<longrightarrow>
        Federated_DeleteFunc t ob w = Returns (w\<lparr>logs := logs w @ [Errorf_Err err]\<rparr>)
        \<and> Queued_DeleteFunc t ob w = Returns (w\<lparr>logs := logs w @ [Errorf_Err err]\<rparr>))"
proof (intro conjI impI)
  show "ensureObjectOnDelete ob expectedType = Inr ob" if "TypeOf ob = expectedType"
    using that by (rule ensureObjectOnDelete_same)
next
  assume "expectedType \<noteq> DeletedFinalStateUnknownType \<and> TypeOf inner = expectedType"
  then show "ensureObjectOnDelete (DeletedFinalStateUnknown key inner) expectedType = Inr inner"
    by (auto simp: ensureObjectOnDelete_def)
next
  assume "expectedType \<noteq> DeletedFinalStateUnknownType \<and> TypeOf inner \<noteq> expectedType"
  then show "ensureObjectOnDelete (DeletedFinalStateUnknown key inner) expectedType
          = Inl (UnexpectedTombstoneObjectType expectedType (TypeOf inner))"
    by (auto simp: ensureObjectOnDelete_def)
next
  assume a: "map_of (informers w) t = Some i \<and> ensureObjectOnDelete ob (oType i) = Inr realObj"
  then show "Federated_DeleteFunc t ob w
          = forEachHandler t realObj (\<lambda>h. Handler_OnDelete h realObj) w"
    by (simp add: DeleteFunc_delivered)
  from a show "Queued_DeleteFunc t ob w = enqueueEvent t nil realObj deleteEvent w"
    by (simp add: DeleteFunc_delivered)
next
  assume a: "map_of (informers w) t = Some i \<and> ensureObjectOnDelete ob (oType i) = Inl err"
  then show "Federated_DeleteFunc t ob w = Returns (w\<lparr>logs := logs w @ [Errorf_Err err]\<rparr>)"
    by (simp add: DeleteFunc_dropped)
  from a show "Queued_DeleteFunc t ob w = Returns (w\<lparr>logs := logs w @ [Errorf_Err err]\<rparr>)"
    by (simp add: DeleteFunc_dropped)
qed

theorem delete_event_placeholder_witness:
  "ensureObjectOnDelete example_pod_a podType = Inr example_pod_a
   \<and> ensureObjectOnDelete (DeletedFinalStateUnknown ''ns-a/web'' example_pod_a) podType
       = Inr example_pod_a
   \<and> ensureObjectOnDelete (DeletedFinalStateUnknown ''node1'' example_node) podType
       = Inl (UnexpectedTombstoneObjectType podType nodeType)
   \<and> Federated_DeleteFunc podType (DeletedFinalStateUnknown ''ns-a/web'' example_pod_a)
         example_registered
       = forEachHandler podType example_pod_a (\<lambda>h. Handler_OnDelete h example_pod_a)
           example_registered
   \<and> Federated_DeleteFunc podType (DeletedFinalStateUnknown ''node1'' example_node)
         example_registered
       = Returns (example_registered\<lparr>logs := logs example_registered @
           [Errorf_Err (UnexpectedTombstoneObjectType podType nodeType)]\<rparr>)
   \<and> Queued_DeleteFunc nodeType (OtherValue ''garbage'') example_registered
       = Returns (example_registered\<lparr>logs := logs example_registered @
           [Errorf_Err (CouldntGetObjectFromTombstone (OtherValue ''garbage''))]\<rparr>)"
proof -
  have 1: "TypeOf example_pod_a = podType" "TypeOf example_node = nodeType"
    by (simp_all add: example_pod_a_def example_node_def)
  have 2: "ensureObjectOnDelete (OtherValue ''garbage'') nodeType
             = Inl (CouldntGetObjectFromTombstone (OtherValue ''garbage''))"
    by (simp add: ensureObjectOnDelete_def)
  from delete_event_placeholder
         [of example_pod_a podType example_pod_a "''ns-a/web''" example_registered podType
            "the (map_of (informers example_registered) podType)" example_pod_a
            "UnexpectedTombstoneObjectType podType nodeType"]
       delete_event_placeholder
         [of "DeletedFinalStateUnknown ''ns-a/web'' example_pod_a" podType example_node "''node1''"
            example_registered podType
            "the (map_of (informers example_registered) podType)" example_pod_a
            "UnexpectedTombstoneObjectType podType nodeType"]
       delete_event_placeholder
         [of "DeletedFinalStateUnknown ''node1'' example_node" podType example_node "''node1''"
            example_registered podType
            "the (map_of (informers example_registered) podType)" example_pod_a
            "UnexpectedTombstoneObjectType podType nodeType"]
       delete_event_placeholder
         [of "OtherValue ''garbage''" nodeType example_node "''node1''"
            example_registered nodeType
            "the (map_of (informers example_registered) nodeType)" example_pod_a
            "CouldntGetObjectFromTombstone (OtherValue ''garbage'')"]
       1 2
  show ?thesis by (simp add: example_informers)
qed

text \<open>
  C8 as the specification states it does not hold in 64 bits. A factory whose counter
  stands at \<open>2 ^ 64 - 2\<close> returns the ids \<open>2 ^ 64 - 1\<close> and then 0, which is not greater.
  And on the new factory of the example, \<open>2 ^ 64 + 1\<close> registrations in a row return the
  id 1 twice: at the first and at the last of them.
\<close>

theorem handler_ids_wrap_counterexample:
  "returned_ids example_selector
     [Op_addHandler podType [] None 7 None, Op_addHandler podType [] None 7 None]
     (example_factory\<lparr>handlerCounter := 18446744073709551614\<rparr>)
     = [18446744073709551615, 0]
   \<and> \<not> (18446744073709551615 :: 64 word) < 0
   \<and> \<not> distinct (returned_ids example_selector
         (replicate (2 ^ 64 + 1) (Op_addHandler podType [] None 7 None)) example_factory)"
proof -
  let ?a = "Op_addHandler podType [] (None :: unit option) 7 None"
  have s: "example_selector None = Inr (\<lambda>ls. False)" by (simp add: example_selector_def)
  have p: "map_of (informers example_factory) podType \<noteq> None" by (simp add: example_factory_eq)
  have 1: "returned_ids example_selector [?a, ?a]
     (example_factory\<lparr>handlerCounter := 18446744073709551614\<rparr>)
     = [18446744073709551615, 0]"
    by (simp add: addHandler_eq s registered_heap registered_handlerCounter registered_informers
        update_conv' example_factory_eq)
  define n :: nat where "n = 2 ^ 64 + 1"
  let ?ids = "returned_ids example_selector (replicate n ?a) example_factory"
  have len: "length ?ids = n" using s p by (rule replicate_registrations)
  have c: "handlerCounter example_factory = 0" by (simp add: example_factory_eq)
  have ids: "?ids = map (\<lambda>k. of_nat k) [1..<Suc n]"
    using returned_ids_count [of example_selector "replicate n ?a" example_factory]
    by (simp only: len c add_0)
  have n: "0 < n" "n - 1 < n" "0 \<noteq> n - 1" "(of_nat n :: 64 word) = 1"
    by (simp_all add: n_def)
  have "?ids ! 0 = of_nat (1 + 0)"
    unfolding ids using n(1) by (intro nth_map_upt) simp
  moreover have "?ids ! (n - 1) = of_nat (1 + (n - 1))"
    unfolding ids using n(1) by (intro nth_map_upt) simp
  ultimately have "?ids ! 0 = ?ids ! (n - 1)" using n by simp
  with n(1-3) len have "\<not> distinct ?ids" by (metis nth_eq_iff_index_eq)
  then have "\<not> distinct (returned_ids example_selector (replicate (2 ^ 64 + 1) ?a) example_factory)"
    unfolding n_def .
  with 1 show ?thesis by simp
qed

text \<open>
  C8, as the code has it. The ids returned by the successful registrations of a run are
  the successors of the counter, one after the other. As long as the 64-bit counter does
  not pass its greatest value in the run, which takes \<open>2 ^ 64\<close> registrations on a new
  factory, each id is greater than all those returned before it, and no two are equal.
\<close>

theorem handler_ids_increase_until_the_counter_wraps:
  assumes "unat (handlerCounter w) + length (returned_ids L as w) < 2 ^ 64"
  shows "returned_ids L as w =
           map (\<lambda>k. handlerCounter w + of_nat k) [1..<Suc (length (returned_ids L as w))]
       \<and> sorted_wrt (<) (returned_ids L as w)
       \<and> distinct (returned_ids L as w)"
proof -
  let ?n = "length (returned_ids L as w)"
  let ?f = "\<lambda>k. handlerCounter w + of_nat k"
  have ids: "returned_ids L as w = map ?f [1..<Suc ?n]" by (rule returned_ids_count)
  have "sorted_wrt (\<lambda>j k. ?f j < ?f k) [1..<Suc ?n]"
  proof (rule sorted_wrt_mono_rel [where P = "(<)"])
    fix j k
    assume "j \<in> set [1..<Suc ?n]" "k \<in> set [1..<Suc ?n]" "j < k"
    with assms show "?f j < ?f k" by (intro counter_plus_less) auto
  next
    show "sorted_wrt (<) [1..<Suc ?n]" by (rule sorted_wrt_upt)
  qed
  then have "sorted_wrt (<) (map ?f [1..<Suc ?n])" by (simp add: sorted_wrt_map)
  with ids have s: "sorted_wrt (<) (returned_ids L as w)" by simp
  then have "distinct (returned_ids L as w)" by (simp add: strict_sorted_iff)
  with ids s show ?thesis by blast
qed

theorem handler_ids_increase_until_the_counter_wraps_witness:
  "unat (handlerCounter example_factory) + length [1, 2 :: 64 word] < 2 ^ 64
   \<and> returned_ids example_selector
        [Op_addHandler podType ''ns-a'' None 7 (Some 8), Op_addHandler podType [] None 9 None]
        example_factory = [1, 2]
   \<and> sorted_wrt (<) [1, 2 :: 64 word] \<and> distinct [1, 2 :: 64 word]"
proof -
  let ?as = "[Op_addHandler podType ''ns-a'' None 7 (Some 8), Op_addHandler podType [] None 9 None]"
  have ids: "returned_ids example_selector ?as example_factory = [1, 2]"
    by (simp add: example_addHandler example_addHandler_unfiltered)
      (simp add: example_registered_eq example_unfiltered_eq)
  have c: "unat (handlerCounter example_factory) + length [1, 2 :: 64 word] < 2 ^ 64"
    by (simp add: example_factory_eq)
  from handler_ids_increase_until_the_counter_wraps [of example_factory example_selector ?as]
    ids c
  show ?thesis by simp
qed

text \<open>
  C9. Let \<open>shutdown\<close> have returned on an informer with the \<open>numEventQueues\<close> event channels
  of a queued informer: it has closed them and set every slot to nil. Then after any
  further steps of the program every slot is still nil, and \<open>enqueueEvent\<close> on that informer
  returns without touching a channel: it neither panics (no send on a closed channel) nor
  blocks, and the state it returns is the one it was given, with one more log line when
  the metadata of the object cannot be taken.
\<close>

theorem enqueueEvent_after_shutdown:
  assumes "map_of (informers w) t = Some i" and "length (events i) = numEventQueues"
    and "shutdown t w = Returns w1" and "run L as w1 = Returns w2"
  shows "\<exists>i2. map_of (informers w2) t = Some i2
           \<and> events i2 = replicate numEventQueues None
           \<and> enqueueEvent t oldOb ob knd w2 =
               Returns (case getObjectMeta (oType i) ob of
                          Inl err \<Rightarrow> logrus (Errorf_NoMeta err) w2
                        | Inr meta \<Rightarrow> w2)"
proof -
  from shutdown_informer [OF assms(3,1)] assms(2) obtain i1 where
    i1: "map_of (informers w1) t = Some i1" "oType i1 = oType i"
      "events i1 = replicate numEventQueues None"
    by auto
  from assms(4) have "evolves w1 w2" by (rule evolves_run)
  with i1(1) obtain i2 where i2: "map_of (informers w2) t = Some i2" "informer_evolves i1 i2"
    by (auto simp: evolves_def informers_evolve_def)
  from i2(2) i1(3) have "length (events i2) = numEventQueues"
    "\<forall>j < numEventQueues. events i2 ! j = None"
    by (simp_all add: informer_evolves_def)
  then have e: "events i2 = replicate numEventQueues None"
    by (simp add: list_eq_iff_nth_eq)
  from i2(2) i1(2) have "oType i2 = oType i" by (simp add: informer_evolves_def)
  with enqueueEvent_closed [OF i2(1) e, of oldOb ob knd] i2(1) e show ?thesis by auto
qed

theorem enqueueEvent_after_shutdown_witness:
  "map_of (informers example_registered) nodeType =
     Some \<lparr>oType = nodeType,
         informer_inf = \<lparr>store = [example_node], eventHandlers = [FederatedQueuedHandler]\<rparr>,
         handlers = [],
         events = map Some [0..<10]\<rparr>
   \<and> length (map Some [0..<10 :: nat]) = numEventQueues
   \<and> shutdown nodeType example_registered = Returns example_shutdown
   \<and> run example_selector [Op_closeStopChan] example_shutdown
       = Returns (example_shutdown\<lparr>stopChan_closed := True\<rparr>)
   \<and> enqueueEvent nodeType nil example_node addEvent (example_shutdown\<lparr>stopChan_closed := True\<rparr>)
       = Returns (example_shutdown\<lparr>stopChan_closed := True\<rparr>)
   \<and> send 4 \<lparr>event_obj = example_node, event_oldObj = nil, event_kind = addEvent\<rparr>
         (example_shutdown\<lparr>stopChan_closed := True\<rparr>) = Panics SendOnClosedChannel
   \<and> enqueueEvent nodeType nil example_node addEvent example_registered
       = Returns (example_registered\<lparr>chans := (chans example_registered)
           [unat (queueIdx \<lparr>Name = ''node1'', Namespace = [], Labels = []\<rparr>) :=
              \<lparr>chan_buf = [\<lparr>event_obj = example_node, event_oldObj = nil, event_kind = addEvent\<rparr>],
               chan_cap = 1, chan_closed = False\<rparr>]\<rparr>)"
proof -
  have 2: "length (events (the (map_of (informers example_registered) nodeType))) = numEventQueues"
    by (simp add: example_informers numEventQueues_def)
  have 4: "run example_selector [Op_closeStopChan] example_shutdown
       = Returns (example_shutdown\<lparr>stopChan_closed := True\<rparr>)"
    by (simp add: step_def)
  have m: "getObjectMeta nodeType example_node = Inr \<lparr>Name = ''node1'', Namespace = [], Labels = []\<rparr>"
    by (simp add: getObjectMeta_def example_node_def)
  have before: "enqueueEvent nodeType nil example_node addEvent example_registered
       = Returns (example_registered\<lparr>chans := (chans example_registered)
           [unat (queueIdx \<lparr>Name = ''node1'', Namespace = [], Labels = []\<rparr>) :=
              \<lparr>chan_buf = [\<lparr>event_obj = example_node, event_oldObj = nil, event_kind = addEvent\<rparr>],
               chan_cap = 1, chan_closed = False\<rparr>]\<rparr>)"
    using queueIdx_less [of "\<lparr>Name = ''node1'', Namespace = [], Labels = []\<rparr>"]
    by (simp add: enqueueEvent_def getInformer_def example_informers m Let_def send_def
        numEventQueues_def example_registered_eq example_factory_eq)
  from enqueueEvent_after_shutdown
         [where t = nodeType and w = example_registered
            and i = "the (map_of (informers example_registered) nodeType)"
            and ?w1.0 = example_shutdown and L = example_selector and as = "[Op_closeStopChan]"
            and ?w2.0 = "example_shutdown\<lparr>stopChan_closed := True\<rparr>"
            and oldOb = nil and ob = example_node and knd = addEvent,
          OF _ 2 example_shutdown_eq 4]
  have "enqueueEvent nodeType nil example_node addEvent (example_shutdown\<lparr>stopChan_closed := True\<rparr>)
       = Returns (example_shutdown\<lparr>stopChan_closed := True\<rparr>)"
    by (auto simp: example_informers m)
  moreover have "send 4 \<lparr>event_obj = example_node, event_oldObj = nil, event_kind = addEvent\<rparr>
         (example_shutdown\<lparr>stopChan_closed := True\<rparr>) = Panics SendOnClosedChannel"
    by (simp add: send_def example_shutdown_def)
  ultimately show ?thesis using example_shutdown_eq 4 before
    by (simp add: example_informers numEventQueues_def)
qed




end
